theory Spec2Isabelle
  imports Main "HOL-Library.List_Lexorder" "HOL-Library.Char_ord" "HOL-Library.Multiset"
begin

section \<open>Strings and JavaScript helpers\<close>

text \<open>
  Strings are byte lists. \<open>TEXT\<close> columns are compared by SQLite bytewise, which is the
  lexicographic order on \<^typ>\<open>string\<close> given by the two library theories imported above.
\<close>

abbreviation DQUOTE :: char where "DQUOTE \<equiv> CHR 0x22"
abbreviation COMMA :: char where "COMMA \<equiv> CHR '',''"
abbreviation LF :: char where "LF \<equiv> CHR 0x0A"
abbreviation CR :: char where "CR \<equiv> CHR 0x0D"

text \<open>\<^verbatim>\<open>s || d\<close> on a string: the empty string is falsy.\<close>

definition or_str :: "string \<Rightarrow> string \<Rightarrow> string" where
  "or_str s d = (if s = [] then d else s)"

text \<open>\<^verbatim>\<open>x || d\<close> on \<^verbatim>\<open>string | null | undefined\<close>: \<open>None\<close> is null or undefined.\<close>

definition or_opt :: "string option \<Rightarrow> string \<Rightarrow> string" where
  "or_opt x d = (case x of None \<Rightarrow> d | Some s \<Rightarrow> or_str s d)"

text \<open>\<^verbatim>\<open>Array.prototype.join(sep)\<close>.\<close>

fun join :: "string \<Rightarrow> string list \<Rightarrow> string" where
  "join sep [] = []"
| "join sep [x] = x"
| "join sep (x # y # ys) = x @ sep @ join sep (y # ys)"

text \<open>\<^verbatim>\<open>value.replace(/"/g, '""')\<close>.\<close>

definition double_quotes :: "string \<Rightarrow> string" where
  "double_quotes v = concat (map (\<lambda>c. if c = DQUOTE then [DQUOTE, DQUOTE] else [c]) v)"

text \<open>
  Decimal digits, for \<^verbatim>\<open>Date.now()\<close> inside a template string and for the zero-padded
  fields of \<^verbatim>\<open>toISOString()\<close>.
\<close>

definition digit_char :: "nat \<Rightarrow> char" where
  "digit_char n = ''0123456789'' ! (n mod 10)"

fun pad :: "nat \<Rightarrow> nat \<Rightarrow> string" where
  "pad 0 n = []"
| "pad (Suc w) n = pad w (n div 10) @ [digit_char n]"

text \<open>The decimal rendering of a number.\<close>

function show_nat :: "nat \<Rightarrow> string" where
  "show_nat n = (if n < 10 then [digit_char n] else show_nat (n div 10) @ [digit_char n])"
  by pat_completeness auto
termination
  by (relation "measure id") auto

declare show_nat.simps [simp del]

section \<open>The data model (types.ts)\<close>

record CustomerAddress =
  address1 :: "string option"
  address2 :: "string option"
  city :: "string option"
  country :: "string option"
  countryCodeV2 :: "string option"
  province :: "string option"
  provinceCode :: "string option"
  zip_code :: "string option"
  phone :: "string option"
  firstName :: "string option"
  lastName :: "string option"
  company :: "string option"

record Money =
  amount :: string
  currencyCode :: string

record LastOrder =
  order_id :: string
  name :: string
  createdAt :: string

record Statistics =
  predictedSpendTier :: "string option"
  rfmGroup :: "string option"

text \<open>
  \<^verbatim>\<open>CustomerData\<close>. The fields \<open>id\<close>, \<open>note\<close> and \<open>locale\<close> carry a prefix, their names
  being taken in Isabelle. An object with a single member (\<open>defaultEmailAddress\<close>,
  \<open>defaultPhoneNumber\<close>, \<open>mergeable\<close>, \<open>originalCreatedDate\<close>) is that member, \<open>None\<close> when
  the object is null. An object read through \<^verbatim>\<open>?.\<close> is optional. The three composite
  fields that the code only ever passes to \<^verbatim>\<open>JSON.stringify\<close> (\<open>addresses\<close>,
  \<open>events.nodes\<close>, \<open>orders.nodes\<close>) are kept as their JSON text, \<open>None\<close> when absent.
\<close>

record CustomerData =
  customer_id :: string
  firstName :: "string option"
  lastName :: "string option"
  displayName :: string
  defaultEmailAddress :: "string option"
  defaultPhoneNumber :: "string option"
  verifiedEmail :: bool
  state :: string
  customer_locale :: "string option"
  customer_note :: "string option"
  tags :: "string list"
  createdAt :: string
  updatedAt :: string
  amountSpent :: "Money option"
  numberOfOrders :: string
  lifetimeDuration :: "string option"
  addresses :: "string option"
  defaultAddress :: "CustomerAddress option"
  lastOrder :: "LastOrder option"
  productSubscriberStatus :: "string option"
  mergeable :: "bool option"
  originalCreatedDate :: "string option"
  events_nodes :: "string option"
  orders_nodes :: "string option"
  statistics :: "Statistics option"

datatype ExportStatus = pending | in_progress | completed | failed

record ExportJob =
  job_id :: string
  storeName :: string
  status :: ExportStatus
  totalCustomers :: nat
  processedCustomers :: nat
  startedAt :: string
  completedAt :: "string option"
  error :: "string option"
  csvFilePath :: "string option"
  lastCursor :: "string option"

section \<open>CSV output (export-service.ts)\<close>

definition bool_str :: "bool \<Rightarrow> string" where
  "bool_str b = (if b then ''true'' else ''false'')"

text \<open>\<^verbatim>\<open>customer.defaultAddress?.f || ''\<close>.\<close>

definition addr_field :: "(CustomerAddress \<Rightarrow> string option) \<Rightarrow> CustomerData \<Rightarrow> string" where
  "addr_field f c = (case defaultAddress c of None \<Rightarrow> [] | Some a \<Rightarrow> or_opt (f a) [])"

text \<open>
  \<^verbatim>\<open>customerToCSVRow\<close>: the values of the object literal, in the order of its keys, which
  is the order \<^verbatim>\<open>Object.values\<close> reads them in.
\<close>

definition customerToCSVRow :: "CustomerData \<Rightarrow> string list" where
  "customerToCSVRow c =
    [ or_str (customer_id c) [],
      or_opt (CustomerData.firstName c) [],
      or_opt (CustomerData.lastName c) [],
      or_str (displayName c) [],
      or_opt (defaultEmailAddress c) [],
      or_opt (defaultPhoneNumber c) [],
      bool_str (verifiedEmail c),
      or_str (state c) [],
      or_opt (customer_locale c) [],
      double_quotes (or_opt (customer_note c) []),
      join '', '' (tags c),
      or_str (CustomerData.createdAt c) [],
      or_str (updatedAt c) [],
      (case amountSpent c of None \<Rightarrow> ''0'' | Some m \<Rightarrow> or_str (amount m) ''0''),
      (case amountSpent c of None \<Rightarrow> [] | Some m \<Rightarrow> or_str (currencyCode m) []),
      or_str (numberOfOrders c) ''0'',
      or_opt (lifetimeDuration c) [],
      addr_field address1 c,
      addr_field address2 c,
      addr_field city c,
      addr_field country c,
      addr_field countryCodeV2 c,
      addr_field province c,
      addr_field provinceCode c,
      addr_field zip_code c,
      addr_field phone c,
      addr_field CustomerAddress.firstName c,
      addr_field CustomerAddress.lastName c,
      addr_field company c,
      (case lastOrder c of None \<Rightarrow> [] | Some l \<Rightarrow> or_str (order_id l) []),
      (case lastOrder c of None \<Rightarrow> [] | Some l \<Rightarrow> or_str (name l) []),
      (case lastOrder c of None \<Rightarrow> [] | Some l \<Rightarrow> or_str (LastOrder.createdAt l) []),
      or_opt (productSubscriberStatus c) [],
      bool_str (case mergeable c of None \<Rightarrow> False | Some b \<Rightarrow> b),
      or_opt (originalCreatedDate c) [],
      (case addresses c of None \<Rightarrow> ''[]'' | Some j \<Rightarrow> j),
      (case events_nodes c of None \<Rightarrow> ''[]'' | Some j \<Rightarrow> j),
      (case orders_nodes c of None \<Rightarrow> ''[]'' | Some j \<Rightarrow> j),
      (case statistics c of None \<Rightarrow> [] | Some s \<Rightarrow> or_opt (predictedSpendTier s) []),
      (case statistics c of None \<Rightarrow> [] | Some s \<Rightarrow> or_opt (rfmGroup s) []) ]"

definition escapeCSVField :: "string \<Rightarrow> string" where
  "escapeCSVField v =
    (if COMMA \<in> set v \<or> DQUOTE \<in> set v \<or> LF \<in> set v \<or> CR \<in> set v
     then [DQUOTE] @ double_quotes v @ [DQUOTE]
     else v)"

definition csvRowToLine :: "string list \<Rightarrow> string" where
  "csvRowToLine row = join '','' (map escapeCSVField row)"

subsection \<open>Reading a line back\<close>

text \<open>
  The reader the round-trip property speaks of is not part of the repository. It is
  written here from RFC 4180: a field is either bare, ending at the next comma, or
  enclosed in double quotes, where a doubled quote stands for one quote and the field
  ends at a quote followed by a comma or by the end of the record.
\<close>

datatype rfc4180_mode = FieldStart | Bare | Quoted | QuoteSeen

fun rfc4180_parse :: "rfc4180_mode \<Rightarrow> string \<Rightarrow> string \<Rightarrow> string list" where
  "rfc4180_parse m acc [] = [rev acc]"
| "rfc4180_parse FieldStart acc (c # cs) =
     (if c = DQUOTE then rfc4180_parse Quoted [] cs
      else if c = COMMA then [] # rfc4180_parse FieldStart [] cs
      else rfc4180_parse Bare [c] cs)"
| "rfc4180_parse Bare acc (c # cs) =
     (if c = COMMA then rev acc # rfc4180_parse FieldStart [] cs
      else rfc4180_parse Bare (c # acc) cs)"
| "rfc4180_parse Quoted acc (c # cs) =
     (if c = DQUOTE then rfc4180_parse QuoteSeen acc cs
      else rfc4180_parse Quoted (c # acc) cs)"
| "rfc4180_parse QuoteSeen acc (c # cs) =
     (if c = DQUOTE then rfc4180_parse Quoted (DQUOTE # acc) cs
      else if c = COMMA then rev acc # rfc4180_parse FieldStart [] cs
      else rfc4180_parse Bare (c # acc) cs)"

definition rfc4180_record :: "string \<Rightarrow> string list" where
  "rfc4180_record line = rfc4180_parse FieldStart [] line"

section \<open>The customers table (database.ts)\<close>

text \<open>
  A row of \<^verbatim>\<open>customers\<close>. The column \<open>id\<close> is the table's only key
  (\<^verbatim>\<open>id TEXT PRIMARY KEY\<close>). The column \<open>data\<close> holds \<^verbatim>\<open>JSON.stringify(customer)\<close> and is
  only ever read back through \<^verbatim>\<open>JSON.parse\<close>, so the row keeps the customer itself.
  The table is the list of its rows in rowid order.
\<close>

record customer_row =
  row_id :: string
  store_name :: string
  data :: CustomerData
  created_at :: string
  updated_at :: string

text \<open>
  \<^verbatim>\<open>INSERT OR REPLACE\<close>: a row whose primary key is already in the table is deleted, and
  the new row is inserted, at a fresh rowid.
\<close>

definition insert_or_replace :: "customer_row \<Rightarrow> customer_row list \<Rightarrow> customer_row list" where
  "insert_or_replace r tab = filter (\<lambda>x. row_id x \<noteq> row_id r) tab @ [r]"

text \<open>The row one call of \<^verbatim>\<open>insert.run\<close> writes; \<open>now\<close> is read once per transaction.\<close>

definition customer_to_row :: "string \<Rightarrow> string \<Rightarrow> CustomerData \<Rightarrow> customer_row" where
  "customer_to_row store now c =
     \<lparr> row_id = customer_id c, store_name = store, data = c,
       created_at = or_str (CustomerData.createdAt c) now, updated_at = now \<rparr>"

definition saveCustomers ::
  "string \<Rightarrow> string \<Rightarrow> CustomerData list \<Rightarrow> customer_row list \<Rightarrow> customer_row list" where
  "saveCustomers store now cs tab =
     foldl (\<lambda>t c. insert_or_replace (customer_to_row store now c) t) tab cs"

text \<open>
  \<^verbatim>\<open>ORDER BY k DESC\<close> on a text column, as an insertion sort. SQL leaves the order of rows
  with equal keys to the engine; here they stay in the order of the table.
\<close>

fun insert_desc :: "('a \<Rightarrow> string) \<Rightarrow> 'a \<Rightarrow> 'a list \<Rightarrow> 'a list" where
  "insert_desc k r [] = [r]"
| "insert_desc k r (y # ys) = (if k y \<le> k r then r # y # ys else y # insert_desc k r ys)"

definition order_by_desc :: "('a \<Rightarrow> string) \<Rightarrow> 'a list \<Rightarrow> 'a list" where
  "order_by_desc k rows = foldr (insert_desc k) rows []"

text \<open>\<^verbatim>\<open>SELECT data FROM customers WHERE store_name = ? ORDER BY updated_at DESC\<close>, as rows.\<close>

definition selectCustomersByStore :: "customer_row list \<Rightarrow> string \<Rightarrow> customer_row list" where
  "selectCustomersByStore tab store =
     order_by_desc updated_at (filter (\<lambda>r. store_name r = store) tab)"

definition getCustomersByStore :: "customer_row list \<Rightarrow> string \<Rightarrow> CustomerData list" where
  "getCustomersByStore tab store = map data (selectCustomersByStore tab store)"

definition getCustomerCount :: "customer_row list \<Rightarrow> string \<Rightarrow> nat" where
  "getCustomerCount tab store = length (filter (\<lambda>r. store_name r = store) tab)"

text \<open>\<^verbatim>\<open>deleteCustomersByStore\<close> returns the number of deleted rows with the new table.\<close>

definition deleteCustomersByStore :: "customer_row list \<Rightarrow> string \<Rightarrow> nat \<times> customer_row list" where
  "deleteCustomersByStore tab store =
     (getCustomerCount tab store, filter (\<lambda>r. store_name r \<noteq> store) tab)"

text \<open>
  The order the specification asks of \<open>getAll\<close>, in its words: by \<open>cachedAt\<close> descending,
  then by \<open>externalId\<close> ascending.
\<close>

definition cachedAt_desc_then_externalId_asc :: "customer_row \<Rightarrow> customer_row \<Rightarrow> bool" where
  "cachedAt_desc_then_externalId_asc a b \<longleftrightarrow>
     updated_at b < updated_at a \<or> (updated_at a = updated_at b \<and> row_id a \<le> row_id b)"

text \<open>A customer with nothing but an id, for the concrete tables below.\<close>

definition bare_customer :: "string \<Rightarrow> CustomerData" where
  "bare_customer i =
     \<lparr> customer_id = i, firstName = None, lastName = None, displayName = [],
       defaultEmailAddress = None, defaultPhoneNumber = None, verifiedEmail = False,
       state = ''ENABLED'', customer_locale = None, customer_note = None, tags = [],
       createdAt = [], updatedAt = [], amountSpent = None, numberOfOrders = ''0'',
       lifetimeDuration = None, addresses = None, defaultAddress = None, lastOrder = None,
       productSubscriberStatus = None, mergeable = None, originalCreatedDate = None,
       events_nodes = None, orders_nodes = None, statistics = None \<rparr>"

section \<open>The export_jobs table (database.ts)\<close>

text \<open>
  \<^verbatim>\<open>Partial<ExportJob>\<close>, as far as \<^verbatim>\<open>updateExportJob\<close> reads it: \<open>None\<close> is a member that is
  absent or \<^verbatim>\<open>undefined\<close>. By its type, \<open>lastCursor\<close> is a string or undefined, never null.
\<close>

record ExportJobUpdates =
  new_status :: "ExportStatus option"
  new_totalCustomers :: "nat option"
  new_processedCustomers :: "nat option"
  new_completedAt :: "string option"
  new_error :: "string option"
  new_csvFilePath :: "string option"
  new_lastCursor :: "string option"

definition no_updates :: ExportJobUpdates where
  "no_updates =
     \<lparr> new_status = None, new_totalCustomers = None, new_processedCustomers = None,
       new_completedAt = None, new_error = None, new_csvFilePath = None,
       new_lastCursor = None \<rparr>"

text \<open>
  A member tested for truthiness (\<^verbatim>\<open>if (updates.completedAt)\<close>) is written when it is a
  non-empty string; a member tested with \<^verbatim>\<open>!== undefined\<close> is written when it is present.
\<close>

definition truthy :: "string option \<Rightarrow> string option \<Rightarrow> string option" where
  "truthy new old = (case new of None \<Rightarrow> old | Some v \<Rightarrow> if v = [] then old else Some v)"

definition apply_updates :: "ExportJobUpdates \<Rightarrow> ExportJob \<Rightarrow> ExportJob" where
  "apply_updates u j =
     j \<lparr> status := (case new_status u of None \<Rightarrow> status j | Some v \<Rightarrow> v),
         totalCustomers := (case new_totalCustomers u of None \<Rightarrow> totalCustomers j | Some v \<Rightarrow> v),
         processedCustomers :=
           (case new_processedCustomers u of None \<Rightarrow> processedCustomers j | Some v \<Rightarrow> v),
         completedAt := truthy (new_completedAt u) (completedAt j),
         error := truthy (new_error u) (error j),
         csvFilePath := truthy (new_csvFilePath u) (csvFilePath j),
         lastCursor := (case new_lastCursor u of None \<Rightarrow> lastCursor j | Some v \<Rightarrow> Some v) \<rparr>"

text \<open>\<^verbatim>\<open>UPDATE export_jobs SET ... WHERE id = ?\<close>.\<close>

definition updateExportJob :: "string \<Rightarrow> ExportJobUpdates \<Rightarrow> ExportJob list \<Rightarrow> ExportJob list" where
  "updateExportJob jobId u jobs = map (\<lambda>j. if job_id j = jobId then apply_updates u j else j) jobs"

definition getExportJob :: "ExportJob list \<Rightarrow> string \<Rightarrow> ExportJob option" where
  "getExportJob jobs jobId = find (\<lambda>j. job_id j = jobId) jobs"

definition getExportJobsByStore :: "ExportJob list \<Rightarrow> string \<Rightarrow> nat \<Rightarrow> ExportJob list" where
  "getExportJobsByStore jobs store limit =
     take limit (order_by_desc startedAt (filter (\<lambda>j. storeName j = store) jobs))"

text \<open>
  \<^verbatim>\<open>getLatestExportJob(storeName?)\<close>. Without a store the query has no \<^verbatim>\<open>WHERE\<close> clause and
  is answered from the index on \<open>started_at\<close>, read backwards: of the jobs of the latest
  start time, the one inserted last comes first.
\<close>

definition getLatestExportJob :: "ExportJob list \<Rightarrow> string option \<Rightarrow> ExportJob option" where
  "getLatestExportJob jobs store =
     (case (if or_opt store [] \<noteq> []
            then order_by_desc startedAt (filter (\<lambda>j. storeName j = or_opt store []) jobs)
            else rev (sort_key startedAt jobs)) of
        [] \<Rightarrow> None
      | j # _ \<Rightarrow> Some j)"

section \<open>The world the service runs in\<close>

text \<open>A reading of the system clock: \<^verbatim>\<open>Date.now()\<close> and the fields \<^verbatim>\<open>toISOString()\<close> prints.\<close>

record Date =
  epoch_ms :: nat
  year :: nat
  month :: nat
  day :: nat
  hours :: nat
  minutes :: nat
  seconds :: nat
  millis :: nat

text \<open>\<^verbatim>\<open>YYYY-MM-DDTHH:mm:ss.sssZ\<close>, for the years 0 to 9999.\<close>

definition toISOString :: "Date \<Rightarrow> string" where
  "toISOString d =
     pad 4 (year d) @ ''-'' @ pad 2 (month d) @ ''-'' @ pad 2 (day d) @ ''T'' @
     pad 2 (hours d) @ '':'' @ pad 2 (minutes d) @ '':'' @ pad 2 (seconds d) @ ''.'' @
     pad 3 (millis d) @ ''Z''"

text \<open>
  What \<^verbatim>\<open>shopify.request\<close> gives back: the call throws, the response carries GraphQL errors
  (kept as their JSON text), the response has no \<^verbatim>\<open>data.customers\<close>, or it is a page: the
  nodes of its edges, \<^verbatim>\<open>pageInfo.hasNextPage\<close> and \<^verbatim>\<open>pageInfo.endCursor\<close>.
\<close>

datatype api_response =
    RequestThrows string
  | GraphQLErrors string
  | InvalidResponse
  | Page "CustomerData list" bool "string option"

text \<open>
  The surroundings of a run. The upstream answers the \<open>n\<close>-th request of the process from
  its variables \<^verbatim>\<open>first\<close> and \<^verbatim>\<open>after\<close>; the clock gives its \<open>n\<close>-th reading; a store is
  configured when \<^verbatim>\<open>createShopifyClient\<close> returns for it, which it does when the domain and
  the access token of the store are set in the process environment, and for a name every
  object inherits, where it returns the inherited member of \<^verbatim>\<open>clientInstances\<close>, whose use as
  a client then throws at the first request;
  \<open>exports_dir\<close> is \<^verbatim>\<open>path.resolve(__dirname, '../exports')\<close>.
\<close>

record env =
  request :: "nat \<Rightarrow> nat \<Rightarrow> string option \<Rightarrow> api_response"
  clock :: "nat \<Rightarrow> Date"
  configured :: "string \<Rightarrow> bool"
  exports_dir :: string

text \<open>
  The state: the two tables, the files on disk, the requests sent upstream so far (with
  their variables) and the number of clock readings taken so far.
\<close>

record world =
  customers :: "customer_row list"
  export_jobs :: "ExportJob list"
  files :: "string \<Rightarrow> string option"
  requests :: "(nat \<times> string option) list"
  ticks :: nat

definition read_clock :: "env \<Rightarrow> world \<Rightarrow> Date \<times> world" where
  "read_clock e w = (clock e (ticks w), w \<lparr> ticks := ticks w + 1 \<rparr>)"

definition update_job :: "string \<Rightarrow> ExportJobUpdates \<Rightarrow> world \<Rightarrow> world" where
  "update_job jobId u w = w \<lparr> export_jobs := updateExportJob jobId u (export_jobs w) \<rparr>"

text \<open>
  \<^verbatim>\<open>createExportJob\<close>. The id is built from \<^verbatim>\<open>Date.now()\<close>; the \<^verbatim>\<open>INSERT\<close> fails when a job
  with this id exists, \<open>id\<close> being the primary key.
\<close>

definition createExportJob :: "env \<Rightarrow> string \<Rightarrow> world \<Rightarrow> (string + ExportJob) \<times> world" where
  "createExportJob e store w =
     (let (d1, w1) = read_clock e w;
          (d2, w2) = read_clock e w1;
          job = \<lparr> job_id = ''export_'' @ store @ ''_'' @ show_nat (epoch_ms d1),
                  storeName = store, status = pending, totalCustomers = 0,
                  processedCustomers = 0, startedAt = toISOString d2, completedAt = None,
                  error = None, csvFilePath = None, lastCursor = None \<rparr>
      in if getExportJob (export_jobs w2) (job_id job) \<noteq> None
         then (Inl ''UNIQUE constraint failed: export_jobs.id'', w2)
         else (Inr job, w2 \<lparr> export_jobs := export_jobs w2 @ [job] \<rparr>))"

section \<open>Fetching (export-service.ts)\<close>

definition CUSTOMERS_PER_REQUEST :: nat where
  "CUSTOMERS_PER_REQUEST = 250"

text \<open>
  One turn of the \<^verbatim>\<open>while (hasNextPage)\<close> loop, from the loop variables \<open>cursor\<close> and
  \<open>totalCustomers\<close>: the loop goes on with new variables, ends, or an exception leaves it.
  The delay between two requests changes nothing in the state.
\<close>

datatype step_result =
    Continue "string option" nat world
  | Finished nat world
  | Thrown string world

definition fetch_step ::
  "env \<Rightarrow> string \<Rightarrow> string \<Rightarrow> string option \<Rightarrow> nat \<Rightarrow> world \<Rightarrow> step_result" where
  "fetch_step e store exportJobId cursor tot w =
     (let w1 = w \<lparr> requests := requests w @ [(CUSTOMERS_PER_REQUEST, cursor)] \<rparr> in
      case request e (length (requests w)) CUSTOMERS_PER_REQUEST cursor of
        RequestThrows msg \<Rightarrow> Thrown msg w1
      | GraphQLErrors js \<Rightarrow> Thrown (''GraphQL Error: '' @ js) w1
      | InvalidResponse \<Rightarrow> Thrown ''Invalid response from Shopify API'' w1
      | Page cs hasNextPage endCursor \<Rightarrow>
          (let (tot', w3) =
                 (if cs \<noteq> [] then
                    (let (now, w2) = read_clock e w1 in
                     (tot + length cs,
                      update_job exportJobId
                        (no_updates \<lparr> new_processedCustomers := Some (tot + length cs) \<rparr>)
                        (w2 \<lparr> customers := saveCustomers store (toISOString now) cs (customers w2) \<rparr>)))
                  else (tot, w1))
           in if hasNextPage then Continue endCursor tot' w3 else Finished tot' w3))"

text \<open>The state and the running total a turn of the loop leaves.\<close>

definition result_world :: "step_result \<Rightarrow> world" where
  "result_world r = (case r of Continue c t w \<Rightarrow> w | Finished t w \<Rightarrow> w | Thrown m w \<Rightarrow> w)"

definition result_total :: "nat \<Rightarrow> step_result \<Rightarrow> nat" where
  "result_total tot r = (case r of Continue c t w \<Rightarrow> t | Finished t w \<Rightarrow> t | Thrown m w \<Rightarrow> tot)"

text \<open>
  The loop. Nothing bounds the number of pages the upstream announces, so the loop takes
  fuel, and \<open>None\<close> is a run that has not ended when the fuel is spent.
\<close>

fun fetch_loop ::
  "nat \<Rightarrow> env \<Rightarrow> string \<Rightarrow> string \<Rightarrow> string option \<Rightarrow> nat \<Rightarrow> world \<Rightarrow> ((string + nat) \<times> world) option" where
  "fetch_loop 0 e store exportJobId cursor tot w = None"
| "fetch_loop (Suc n) e store exportJobId cursor tot w =
     (case fetch_step e store exportJobId cursor tot w of
        Continue cursor' tot' w' \<Rightarrow> fetch_loop n e store exportJobId cursor' tot' w'
      | Finished tot' w' \<Rightarrow> Some (Inr tot', w')
      | Thrown msg w' \<Rightarrow> Some (Inl msg, w'))"

text \<open>
  \<^verbatim>\<open>fetchAndSaveCustomers(storeName, jobId?)\<close>. The function has these two parameters only:
  the loop starts with \<^verbatim>\<open>cursor = null\<close> and \<^verbatim>\<open>totalCustomers = 0\<close> whatever job it is given.
  It returns \<^verbatim>\<open>{ totalCustomers, jobId }\<close> or throws (\<open>Inl\<close>, with the message).
\<close>

definition fetchAndSaveCustomers ::
  "nat \<Rightarrow> env \<Rightarrow> string \<Rightarrow> string option \<Rightarrow> world \<Rightarrow> ((string + nat \<times> string) \<times> world) option" where
  "fetchAndSaveCustomers fuel e store jobId w =
     (if \<not> configured e store
      then Some (Inl (''Store configuration not found or incomplete for '' @ store @
                      ''. Check environment variables.''), w)
      else
        (let job = (if or_opt jobId [] \<noteq> [] then getExportJob (export_jobs w) (or_opt jobId [])
                    else None)
         in case (case job of
                    Some j \<Rightarrow> if job_id j \<noteq> [] then (Inr j, w) else createExportJob e store w
                  | None \<Rightarrow> createExportJob e store w) of
              (Inl msg, w1) \<Rightarrow> Some (Inl msg, w1)
            | (Inr j, w1) \<Rightarrow>
                (let exportJobId = job_id j;
                     w2 = update_job exportJobId (no_updates \<lparr> new_status := Some in_progress \<rparr>) w1
                 in case fetch_loop fuel e store exportJobId None 0 w2 of
                      None \<Rightarrow> None
                    | Some (Inr tot, w3) \<Rightarrow>
                        (let (now, w4) = read_clock e w3 in
                         Some (Inr (tot, exportJobId),
                               update_job exportJobId
                                 (no_updates \<lparr> new_status := Some completed,
                                              new_totalCustomers := Some tot,
                                              new_completedAt := Some (toISOString now) \<rparr>) w4))
                    | Some (Inl msg, w3) \<Rightarrow>
                        (let (now, w4) = read_clock e w3 in
                         Some (Inl msg,
                               update_job exportJobId
                                 (no_updates \<lparr> new_status := Some failed,
                                              new_error := Some msg,
                                              new_completedAt := Some (toISOString now) \<rparr>) w4)))))"

section \<open>Writing the CSV file (export-service.ts)\<close>

definition csv_headers :: "string list" where
  "csv_headers =
    [ ''id'', ''firstName'', ''lastName'', ''displayName'', ''email'', ''phone'',
      ''verifiedEmail'', ''state'', ''locale'', ''note'', ''tags'', ''createdAt'',
      ''updatedAt'', ''amountSpent'', ''amountSpentCurrency'', ''numberOfOrders'',
      ''lifetimeDuration'', ''defaultAddress_address1'', ''defaultAddress_address2'',
      ''defaultAddress_city'', ''defaultAddress_country'', ''defaultAddress_countryCodeV2'',
      ''defaultAddress_province'', ''defaultAddress_provinceCode'', ''defaultAddress_zip'',
      ''defaultAddress_phone'', ''defaultAddress_firstName'', ''defaultAddress_lastName'',
      ''defaultAddress_company'', ''lastOrder_id'', ''lastOrder_name'',
      ''lastOrder_createdAt'', ''productSubscriberStatus'', ''isMergeable'',
      ''originalCreatedDate (metafield: magento.created_at)'', ''allAddresses'',
      ''lastFiveEvents'', ''lastFiveOrders'', ''statistics_predictedSpendTier'',
      ''statistics_rfmGroup'' ]"

text \<open>\<^verbatim>\<open>new Date().toISOString().replace(/[:.]/g, '-').split('T')[0]\<close>.\<close>

definition csv_timestamp :: "Date \<Rightarrow> string" where
  "csv_timestamp d =
     takeWhile (\<lambda>c. c \<noteq> CHR ''T'')
       (map (\<lambda>c. if c = CHR '':'' \<or> c = CHR ''.'' then CHR ''-'' else c) (toISOString d))"

text \<open>
  \<^verbatim>\<open>path.join(outputDir, `customers-${storeName}-${timestamp}.csv`)\<close>; the callers pass a
  key of \<^verbatim>\<open>storeConfigs\<close> as store name, so the file name has no path separator.
\<close>

definition csv_output_file :: "string \<Rightarrow> string \<Rightarrow> Date \<Rightarrow> string" where
  "csv_output_file dir store d = dir @ ''/'' @ ''customers-'' @ store @ ''-'' @ csv_timestamp d @ ''.csv''"

text \<open>Everything written to the stream: the header line, then a line for each customer.\<close>

definition csv_text :: "CustomerData list \<Rightarrow> string" where
  "csv_text cs =
     join '','' csv_headers @ [LF] @ concat (map (\<lambda>c. csvRowToLine (customerToCSVRow c) @ [LF]) cs)"

text \<open>
  \<^verbatim>\<open>exportCustomersToCSV(storeName, jobId?)\<close>. The stream is opened with \<^verbatim>\<open>flags: 'w'\<close>, which
  creates the file or truncates it; when the stream has finished the file holds what
  was written to it.
\<close>

definition exportCustomersToCSV ::
  "env \<Rightarrow> string \<Rightarrow> string option \<Rightarrow> world \<Rightarrow> (string + string) \<times> world" where
  "exportCustomersToCSV e store jobId w =
     (let cs = getCustomersByStore (customers w) store in
      if cs = [] then (Inl (''No customers found in database for store: '' @ store), w)
      else
        (let (now, w1) = read_clock e w;
             outputFile = csv_output_file (exports_dir e) store now;
             w2 = w1 \<lparr> files := (files w1)(outputFile \<mapsto> csv_text cs) \<rparr>;
             w3 = (if or_opt jobId [] \<noteq> []
                   then update_job (or_opt jobId []) (no_updates \<lparr> new_csvFilePath := Some outputFile \<rparr>) w2
                   else w2)
         in (Inr outputFile, w3)))"

section \<open>The HTTP routes (server.ts)\<close>

text \<open>The keys of \<^verbatim>\<open>storeConfigs\<close> (shopify-client.ts).\<close>

definition storeConfigs :: "string list" where
  "storeConfigs =
    [ ''evisu-hk-staging'', ''evisu-hk'', ''evisu-ap'', ''evisu-eu'', ''evisu-jp'',
      ''evisu-sa'', ''evisu-tw'', ''evisu-us'' ]"

text \<open>
  \<^verbatim>\<open>storeName in storeConfigs\<close>. The operator finds the keys of the object and the members
  every object inherits from \<^verbatim>\<open>Object.prototype\<close>.
\<close>

definition object_prototype_names :: "string list" where
  "object_prototype_names =
    [ ''constructor'', ''__defineGetter__'', ''__defineSetter__'', ''hasOwnProperty'',
      ''__lookupGetter__'', ''__lookupSetter__'', ''isPrototypeOf'', ''propertyIsEnumerable'',
      ''toString'', ''valueOf'', ''__proto__'', ''toLocaleString'' ]"

definition in_storeConfigs :: "string \<Rightarrow> bool" where
  "in_storeConfigs store \<longleftrightarrow> store \<in> set storeConfigs \<or> store \<in> set object_prototype_names"

text \<open>
  The server process: \<^verbatim>\<open>activeExports\<close>, a \<^verbatim>\<open>Map<string, boolean>\<close> held in memory, and the
  world.
\<close>

record server =
  activeExports :: "string \<Rightarrow> bool option"
  world :: world

text \<open>The answers of the routes, with the members of their bodies that vary.\<close>

datatype response =
    InvalidStoreName
  | ExportAlreadyInProgress
  | ExportStarted string
  | NoFailedJobFound
  | CanOnlyResumeFailedOrInProgress ExportStatus string
  | NoSavedCursor string
  | ExportResumed string nat
  | CsvExportCompleted string
  | CsvExportFailed string

fun status_code :: "response \<Rightarrow> nat" where
  "status_code InvalidStoreName = 400"
| "status_code ExportAlreadyInProgress = 409"
| "status_code (ExportStarted i) = 200"
| "status_code NoFailedJobFound = 404"
| "status_code (CanOnlyResumeFailedOrInProgress st i) = 400"
| "status_code (NoSavedCursor i) = 400"
| "status_code (ExportResumed i n) = 200"
| "status_code (CsvExportCompleted p) = 200"
| "status_code (CsvExportFailed msg) = 500"

text \<open>
  The work a route leaves running when it answers: the store, the job to go on with (for
  a resume) and the \<^verbatim>\<open>exportCsv\<close> flag of the request.
\<close>

datatype task = RunExport string bool | RunResume string string bool

text \<open>\<^verbatim>\<open>POST /api/export/:storeName\<close>.\<close>

definition post_export :: "server \<Rightarrow> string \<Rightarrow> bool \<Rightarrow> response \<times> server \<times> task option" where
  "post_export srv store exportCsv =
     (if \<not> in_storeConfigs store then (InvalidStoreName, srv, None)
      else if activeExports srv store = Some True then (ExportAlreadyInProgress, srv, None)
      else
        (ExportStarted
           (case getLatestExportJob (export_jobs (world srv)) (Some store) of
              None \<Rightarrow> ''pending''
            | Some j \<Rightarrow> or_str (job_id j) ''pending''),
         srv \<lparr> activeExports := (activeExports srv)(store \<mapsto> True) \<rparr>,
         Some (RunExport store exportCsv)))"

text \<open>
  The job a resume request is about: the job of the \<^verbatim>\<open>jobId\<close> in the body when there is
  one, or else the latest job of the store, among its last ten, that is failed or in
  progress.
\<close>

definition jobToResume :: "ExportJob list \<Rightarrow> string \<Rightarrow> string option \<Rightarrow> ExportJob option" where
  "jobToResume jobs store jobId =
     (case (if or_opt jobId [] \<noteq> [] then getExportJob jobs (or_opt jobId []) else None) of
        Some j \<Rightarrow> Some j
      | None \<Rightarrow> find (\<lambda>j. status j = failed \<or> status j = in_progress)
                  (getExportJobsByStore jobs store 10))"

text \<open>\<^verbatim>\<open>POST /api/export/:storeName/resume\<close>.\<close>

definition post_export_resume ::
  "server \<Rightarrow> string \<Rightarrow> string option \<Rightarrow> bool \<Rightarrow> response \<times> server \<times> task option" where
  "post_export_resume srv store jobId exportCsv =
     (if \<not> in_storeConfigs store then (InvalidStoreName, srv, None)
      else if activeExports srv store = Some True then (ExportAlreadyInProgress, srv, None)
      else
        (case jobToResume (export_jobs (world srv)) store jobId of
           None \<Rightarrow> (NoFailedJobFound, srv, None)
         | Some j \<Rightarrow>
             if status j \<noteq> failed \<and> status j \<noteq> in_progress
             then (CanOnlyResumeFailedOrInProgress (status j) (job_id j), srv, None)
             else if or_opt (lastCursor j) [] = [] then (NoSavedCursor (job_id j), srv, None)
             else (ExportResumed (job_id j) (processedCustomers j),
                   srv \<lparr> activeExports := (activeExports srv)(store \<mapsto> True) \<rparr>,
                   Some (RunResume store (job_id j) exportCsv))))"

text \<open>
  The background work of a route, run to its end. A resume calls
  \<^verbatim>\<open>fetchAndSaveCustomers(storeName, jobToResume.id, jobToResume.lastCursor || undefined)\<close>;
  the function takes the first two arguments. An exception is logged, and the store is
  taken out of \<^verbatim>\<open>activeExports\<close> in every case.
\<close>

definition run_task :: "nat \<Rightarrow> env \<Rightarrow> task \<Rightarrow> server \<Rightarrow> server option" where
  "run_task fuel e t srv =
     (let (store, jobId, exportCsv) =
            (case t of RunExport s c \<Rightarrow> (s, None, c) | RunResume s i c \<Rightarrow> (s, Some i, c))
      in case fetchAndSaveCustomers fuel e store jobId (world srv) of
           None \<Rightarrow> None
         | Some (res, w1) \<Rightarrow>
             (let w2 = (case res of
                          Inr (n, i) \<Rightarrow>
                            if exportCsv then snd (exportCustomersToCSV e store (Some i) w1) else w1
                        | Inl msg \<Rightarrow> w1)
              in Some (srv \<lparr> world := w2, activeExports := (activeExports srv)(store := None) \<rparr>)))"

text \<open>\<^verbatim>\<open>POST /api/export-csv/:storeName\<close>.\<close>

definition post_export_csv :: "env \<Rightarrow> server \<Rightarrow> string \<Rightarrow> response \<times> server" where
  "post_export_csv e srv store =
     (if \<not> in_storeConfigs store then (InvalidStoreName, srv)
      else
        (case exportCustomersToCSV e store None (world srv) of
           (Inr csvPath, w1) \<Rightarrow> (CsvExportCompleted csvPath, srv \<lparr> world := w1 \<rparr>)
         | (Inl msg, w1) \<Rightarrow> (CsvExportFailed msg, srv \<lparr> world := w1 \<rparr>)))"

section \<open>The command line (cli.ts)\<close>

text \<open>
  The commands that write: \<^verbatim>\<open>fetch\<close>, \<^verbatim>\<open>csv\<close>, \<^verbatim>\<open>both\<close> and \<^verbatim>\<open>resume\<close>, with the exit code of
  the process. A resume calls \<^verbatim>\<open>fetchAndSaveCustomers\<close> with the job's id and cursor, as the
  route does.
\<close>

datatype cli_command = CliFetch | CliCsv | CliBoth | CliResume

definition exit_of :: "(string + 'a) \<times> world \<Rightarrow> nat \<times> world" where
  "exit_of res = (case res of (Inl msg, w) \<Rightarrow> (1, w) | (Inr v, w) \<Rightarrow> (0, w))"

definition cli :: "nat \<Rightarrow> env \<Rightarrow> cli_command \<Rightarrow> string \<Rightarrow> world \<Rightarrow> (nat \<times> world) option" where
  "cli fuel e cmd store w =
     (if store = [] \<or> \<not> in_storeConfigs store then Some (1, w)
      else
        (case cmd of
           CliFetch \<Rightarrow> map_option exit_of (fetchAndSaveCustomers fuel e store None w)
         | CliCsv \<Rightarrow> Some (exit_of (exportCustomersToCSV e store None w))
         | CliBoth \<Rightarrow>
             (case fetchAndSaveCustomers fuel e store None w of
                None \<Rightarrow> None
              | Some (Inl msg, w1) \<Rightarrow> Some (1, w1)
              | Some (Inr (n, i), w1) \<Rightarrow> Some (exit_of (exportCustomersToCSV e store (Some i) w1)))
         | CliResume \<Rightarrow>
             (case find (\<lambda>j. status j = failed) (getExportJobsByStore (export_jobs w) store 10) of
                None \<Rightarrow> Some (1, w)
              | Some j \<Rightarrow>
                  if or_opt (lastCursor j) [] = [] then Some (1, w)
                  else map_option exit_of (fetchAndSaveCustomers fuel e store (Some (job_id j)) w))))"

section \<open>Sequences of operations\<close>

text \<open>
  What can be asked of the service: a start, a resume and a CSV export over HTTP, and a
  command on the command line. A request over HTTP is taken with the work it leaves
  running, run to its end.
\<close>

datatype operation =
    Start string bool
  | Resume string "string option" bool
  | ExportCsv string
  | Cli cli_command string

definition with_task ::
  "nat \<Rightarrow> env \<Rightarrow> response \<times> server \<times> task option \<Rightarrow> (response \<times> server) option" where
  "with_task fuel e answer =
     (case answer of
        (r, srv1, None) \<Rightarrow> Some (r, srv1)
      | (r, srv1, Some t) \<Rightarrow> map_option (Pair r) (run_task fuel e t srv1))"

definition exec_op :: "nat \<Rightarrow> env \<Rightarrow> operation \<Rightarrow> server \<Rightarrow> (response option \<times> server) option" where
  "exec_op fuel e op srv =
     (case op of
        Start store exportCsv \<Rightarrow>
          map_option (\<lambda>(r, srv1). (Some r, srv1)) (with_task fuel e (post_export srv store exportCsv))
      | Resume store jobId exportCsv \<Rightarrow>
          map_option (\<lambda>(r, srv1). (Some r, srv1))
            (with_task fuel e (post_export_resume srv store jobId exportCsv))
      | ExportCsv store \<Rightarrow>
          (case post_export_csv e srv store of (r, srv1) \<Rightarrow> Some (Some r, srv1))
      | Cli cmd store \<Rightarrow>
          map_option (\<lambda>(code, w1). (None, srv \<lparr> world := w1 \<rparr>)) (cli fuel e cmd store (world srv)))"

fun exec_ops :: "nat \<Rightarrow> env \<Rightarrow> operation list \<Rightarrow> server \<Rightarrow> server option" where
  "exec_ops fuel e [] srv = Some srv"
| "exec_ops fuel e (op # ops) srv =
     (case exec_op fuel e op srv of
        None \<Rightarrow> None
      | Some (r, srv1) \<Rightarrow> exec_ops fuel e ops srv1)"

text \<open>No job of the table has a cursor.\<close>

definition cursor_free :: "ExportJob list \<Rightarrow> bool" where
  "cursor_free jobs \<longleftrightarrow> list_all (\<lambda>j. lastCursor j = None) jobs"

text \<open>
  Every job of the older table is still in its place in the newer one, under its id, and
  its processed count is not below what it was.
\<close>

definition never_below :: "ExportJob list \<Rightarrow> ExportJob list \<Rightarrow> bool" where
  "never_below older newer \<longleftrightarrow>
     length older \<le> length newer \<and>
     (\<forall>k < length older.
        job_id (newer ! k) = job_id (older ! k) \<and>
        processedCustomers (older ! k) \<le> processedCustomers (newer ! k))"

text \<open>
  What is looked at in a job: its status, its processed count and its cursor.
\<close>

definition job_view :: "ExportJob \<Rightarrow> ExportStatus \<times> nat \<times> string option" where
  "job_view j = (status j, processedCustomers j, lastCursor j)"

section \<open>A store of 520 customers\<close>

text \<open>
  The concrete inputs of the statements below: an upstream of 520 customers that serves
  them in pages of 250, 250 and 20, a clock, and the state a run leaves when its third
  request fails.
\<close>

definition customer_page :: "nat \<Rightarrow> nat \<Rightarrow> CustomerData list" where
  "customer_page a k = map (\<lambda>i. bare_customer (''gid://shopify/Customer/'' @ show_nat i)) [a..<a + k]"

text \<open>The upstream; its request number \<open>fail_at\<close> fails.\<close>

definition upstream_520 :: "nat \<Rightarrow> nat \<Rightarrow> nat \<Rightarrow> string option \<Rightarrow> api_response" where
  "upstream_520 fail_at n first after =
     (if n = fail_at then RequestThrows ''fetch failed''
      else if after = None then Page (customer_page 1 first) True (Some ''c250'')
      else if after = Some ''c250'' then Page (customer_page 251 first) True (Some ''c500'')
      else if after = Some ''c500'' then Page (customer_page 501 20) False (Some ''c520'')
      else InvalidResponse)"

definition sample_clock :: "nat \<Rightarrow> Date" where
  "sample_clock n =
     \<lparr> epoch_ms = 1763017706000 + n, year = 2025, month = 11, day = 13, hours = 7,
       minutes = 8, seconds = 26, millis = n \<rparr>"

definition sample_env :: "nat \<Rightarrow> env" where
  "sample_env fail_at =
     \<lparr> request = upstream_520 fail_at, clock = sample_clock, configured = (\<lambda>s. True),
       exports_dir = ''/app/exports'' \<rparr>"

definition empty_world :: world where
  "empty_world = \<lparr> customers = [], export_jobs = [], files = (\<lambda>p. None), requests = [], ticks = 0 \<rparr>"

text \<open>
  The server as it is started on a new database, and the state a first run leaves that
  saved two pages and failed on its third request.
\<close>

definition fresh_server :: server where
  "fresh_server = \<lparr> activeExports = (\<lambda>s. None), world = empty_world \<rparr>"

definition interrupted_job :: ExportJob where
  "interrupted_job =
     \<lparr> job_id = ''export_evisu-us_1763017706000'', storeName = ''evisu-us'', status = failed,
       totalCustomers = 0, processedCustomers = 500,
       startedAt = ''2025-11-13T07:08:26.001Z'',
       completedAt = Some ''2025-11-13T07:08:26.004Z'', error = Some ''fetch failed'',
       csvFilePath = None, lastCursor = None \<rparr>"

definition interrupted_world :: world where
  "interrupted_world =
     \<lparr> customers =
         saveCustomers ''evisu-us'' ''2025-11-13T07:08:26.003Z'' (customer_page 251 250)
           (saveCustomers ''evisu-us'' ''2025-11-13T07:08:26.002Z'' (customer_page 1 250) []),
       export_jobs = [interrupted_job],
       files = (\<lambda>p. None),
       requests = [(250, None), (250, Some ''c250''), (250, Some ''c500'')],
       ticks = 5 \<rparr>"

definition interrupted_server :: server where
  "interrupted_server = \<lparr> activeExports = (\<lambda>s. None), world = interrupted_world \<rparr>"

text \<open>The same server while an export of the store is running.\<close>

definition busy_server :: server where
  "busy_server = interrupted_server \<lparr> activeExports := [''evisu-us'' \<mapsto> True] \<rparr>"

text \<open>A job that has completed, with no export running, and with one running.\<close>

definition completed_job :: ExportJob where
  "completed_job =
     \<lparr> job_id = ''export_evisu-us_1763017706000'', storeName = ''evisu-us'', status = completed,
       totalCustomers = 520, processedCustomers = 520,
       startedAt = ''2025-11-13T07:08:26.001Z'',
       completedAt = Some ''2025-11-13T07:08:26.005Z'', error = None,
       csvFilePath = None, lastCursor = None \<rparr>"

definition completed_server :: server where
  "completed_server =
     \<lparr> activeExports = (\<lambda>s. None),
       world = interrupted_world \<lparr> export_jobs := [completed_job] \<rparr> \<rparr>"

definition busy_completed_server :: server where
  "busy_completed_server = completed_server \<lparr> activeExports := [''evisu-us'' \<mapsto> True] \<rparr>"

text \<open>A cache of three customers, saved in one page, in the order of their numbers.\<close>

definition small_page :: "CustomerData list" where
  "small_page =
     [bare_customer ''gid://shopify/Customer/9'', bare_customer ''gid://shopify/Customer/10'',
      bare_customer ''gid://shopify/Customer/11'']"

definition small_world :: world where
  "small_world =
     empty_world \<lparr> customers := saveCustomers ''evisu-us'' ''2025-11-13T07:08:26.002Z'' small_page [] \<rparr>"

text \<open>
  A value with a comma, a double quote and a newline, and a customer who has it as first
  name and as note.
\<close>

definition awkward_value :: string where
  "awkward_value = [CHR ''a'', COMMA, DQUOTE, CHR ''b'', LF]"

definition quoting_customer :: CustomerData where
  "quoting_customer =
     (bare_customer ''gid://shopify/Customer/1'')
       \<lparr> firstName := Some awkward_value, customer_note := Some awkward_value \<rparr>"


text \<open>
  An upstream that answers every request, of whatever store, with the one page of the
  three customers above.
\<close>

definition one_page_env :: env where
  "one_page_env =
     \<lparr> request = (\<lambda>n first after. Page small_page False None), clock = sample_clock,
       configured = (\<lambda>s. True), exports_dir = ''/app/exports'' \<rparr>"

text \<open>
  The state in which the loop of a first run takes its first turn: the job has been
  created and marked as in progress.
\<close>

definition started_world :: world where
  "started_world =
     update_job ''export_evisu-us_1763017706000'' (no_updates \<lparr> new_status := Some in_progress \<rparr>)
       (snd (createExportJob (sample_env 2) ''evisu-us'' empty_world))"

text \<open>
  The state a second start leaves on the interrupted server, when all three requests of
  this second run are answered: the failed job, and a second job that has completed.
\<close>

definition second_job :: ExportJob where
  "second_job =
     \<lparr> job_id = ''export_evisu-us_1763017706005'', storeName = ''evisu-us'', status = completed,
       totalCustomers = 520, processedCustomers = 520,
       startedAt = ''2025-11-13T07:08:26.006Z'',
       completedAt = Some ''2025-11-13T07:08:26.010Z'', error = None,
       csvFilePath = None, lastCursor = None \<rparr>"

definition restarted_server :: server where
  "restarted_server =
     \<lparr> activeExports = (\<lambda>s. None),
       world =
         \<lparr> customers =
             saveCustomers ''evisu-us'' ''2025-11-13T07:08:26.009Z'' (customer_page 501 20)
               (saveCustomers ''evisu-us'' ''2025-11-13T07:08:26.008Z'' (customer_page 251 250)
                 (saveCustomers ''evisu-us'' ''2025-11-13T07:08:26.007Z'' (customer_page 1 250)
                   (customers interrupted_world))),
           export_jobs = [interrupted_job, second_job],
           files = (\<lambda>p. None),
           requests = [(250, None), (250, Some ''c250''), (250, Some ''c500''),
                       (250, None), (250, Some ''c250''), (250, Some ''c500'')],
           ticks = 11 \<rparr> \<rparr>"

text \<open>
  With the upstream of one page: the state an export of \<open>evisu-us\<close> with its CSV file leaves
  on a new database, and the state an export of \<open>evisu-hk\<close> leaves after it, the upstream
  giving the customers of both stores the same ids.
\<close>

definition us_export_job :: ExportJob where
  "us_export_job =
     \<lparr> job_id = ''export_evisu-us_1763017706000'', storeName = ''evisu-us'', status = completed,
       totalCustomers = 3, processedCustomers = 3,
       startedAt = ''2025-11-13T07:08:26.001Z'',
       completedAt = Some ''2025-11-13T07:08:26.003Z'', error = None,
       csvFilePath = Some ''/app/exports/customers-evisu-us-2025-11-13.csv'',
       lastCursor = None \<rparr>"

definition exported_server :: server where
  "exported_server =
     \<lparr> activeExports = (\<lambda>s. None),
       world =
         \<lparr> customers = saveCustomers ''evisu-us'' ''2025-11-13T07:08:26.002Z'' small_page [],
           export_jobs = [us_export_job],
           files = [''/app/exports/customers-evisu-us-2025-11-13.csv'' \<mapsto> csv_text small_page],
           requests = [(250, None)],
           ticks = 5 \<rparr> \<rparr>"

definition hk_export_job :: ExportJob where
  "hk_export_job =
     \<lparr> job_id = ''export_evisu-hk_1763017706005'', storeName = ''evisu-hk'', status = completed,
       totalCustomers = 3, processedCustomers = 3,
       startedAt = ''2025-11-13T07:08:26.006Z'',
       completedAt = Some ''2025-11-13T07:08:26.008Z'', error = None,
       csvFilePath = None, lastCursor = None \<rparr>"

definition taken_over_server :: server where
  "taken_over_server =
     \<lparr> activeExports = (\<lambda>s. None),
       world =
         \<lparr> customers =
             saveCustomers ''evisu-hk'' ''2025-11-13T07:08:26.007Z'' small_page
               (saveCustomers ''evisu-us'' ''2025-11-13T07:08:26.002Z'' small_page []),
           export_jobs = [us_export_job, hk_export_job],
           files = [''/app/exports/customers-evisu-us-2025-11-13.csv'' \<mapsto> csv_text small_page],
           requests = [(250, None), (250, None)],
           ticks = 9 \<rparr> \<rparr>"

section \<open>Facts about the helpers\<close>

lemma pad_2: "pad 2 n = [digit_char (n div 10), digit_char n]"
proof -
  have "pad (Suc (Suc 0)) n = [digit_char (n div 10), digit_char n]" by simp
  then show ?thesis by (simp only: numeral_2_eq_2)
qed

lemma pad_3: "pad 3 n = [digit_char (n div 10 div 10), digit_char (n div 10), digit_char n]"
proof -
  have "pad (Suc (Suc (Suc 0))) n =
        [digit_char (n div 10 div 10), digit_char (n div 10), digit_char n]" by simp
  then show ?thesis by (simp only: numeral_3_eq_3)
qed

lemma pad_4:
  "pad 4 n = [digit_char (n div 10 div 10 div 10), digit_char (n div 10 div 10),
              digit_char (n div 10), digit_char n]"
proof -
  have "pad (Suc (Suc (Suc (Suc 0)))) n =
        [digit_char (n div 10 div 10 div 10), digit_char (n div 10 div 10),
         digit_char (n div 10), digit_char n]" by simp
  moreover have "(4::nat) = Suc (Suc (Suc (Suc 0)))" by simp
  ultimately show ?thesis by (simp only:)
qed

lemma digit_char_digit: "digit_char n \<in> set ''0123456789''"
proof -
  have "n mod 10 < length ''0123456789''" by simp
  then show ?thesis unfolding digit_char_def by (rule nth_mem)
qed

lemma digit_char_plain:
  "digit_char n \<noteq> CHR ''T''" "digit_char n \<noteq> CHR '':''" "digit_char n \<noteq> CHR ''.''"
  using digit_char_digit [of n] by auto

lemma pad_plain:
  "c \<in> set (pad k n) \<Longrightarrow> c \<noteq> CHR ''T'' \<and> c \<noteq> CHR '':'' \<and> c \<noteq> CHR ''.''"
  by (induction k arbitrary: n) (auto simp: digit_char_plain)

lemma date_plain:
  assumes "c \<in> set (pad 4 y @ ''-'' @ pad 2 m @ ''-'' @ pad 2 d)"
  shows "c \<noteq> CHR ''T'' \<and> c \<noteq> CHR '':'' \<and> c \<noteq> CHR ''.''"
  using assms pad_plain [of c 4 y] pad_plain [of c 2 m] pad_plain [of c 2 d] by auto

section \<open>The cache\<close>

lemma saveCustomers_Nil: "saveCustomers s n [] tab = tab"
  by (simp add: saveCustomers_def)

lemma saveCustomers_snoc:
  "saveCustomers s n (cs @ [c]) tab =
     insert_or_replace (customer_to_row s n c) (saveCustomers s n cs tab)"
  by (simp add: saveCustomers_def)

lemma row_id_customer_to_row: "row_id (customer_to_row s n c) = customer_id c"
  by (simp add: customer_to_row_def)

text \<open>
  A page touches the rows of its own ids only: what it leaves is the rest of the table,
  followed by what the page leaves in an empty table.
\<close>

lemma saveCustomers_split:
  "saveCustomers s n P tab =
     filter (\<lambda>x. row_id x \<notin> customer_id ` set P) tab @ saveCustomers s n P []"
proof (induction P rule: rev_induct)
  case Nil
  show ?case by (simp add: saveCustomers_Nil)
next
  case (snoc c P)
  have "saveCustomers s n (P @ [c]) tab =
        insert_or_replace (customer_to_row s n c)
          (filter (\<lambda>x. row_id x \<notin> customer_id ` set P) tab @ saveCustomers s n P [])"
    using snoc.IH by (simp add: saveCustomers_snoc)
  also have "\<dots> = filter (\<lambda>x. row_id x \<notin> customer_id ` set (P @ [c])) tab @
                 insert_or_replace (customer_to_row s n c) (saveCustomers s n P [])"
    by (auto simp: insert_or_replace_def row_id_customer_to_row intro: filter_cong)
  finally show ?case by (simp add: saveCustomers_snoc)
qed

lemma saved_ids: "row_id ` set (saveCustomers s n P []) \<subseteq> customer_id ` set P"
proof (induction P rule: rev_induct)
  case Nil
  show ?case by (simp add: saveCustomers_Nil)
next
  case (snoc c P)
  then show ?case
    by (auto simp: saveCustomers_snoc insert_or_replace_def row_id_customer_to_row)
qed

lemma filter_saved_empty:
  "filter (\<lambda>x. row_id x \<notin> customer_id ` set P) (saveCustomers s n P []) = []"
  using saved_ids [of s n P] by (auto simp: filter_empty_conv)

text \<open>The primary key stays a key.\<close>

lemma saveCustomers_distinct:
  "distinct (map row_id tab) \<Longrightarrow> distinct (map row_id (saveCustomers s n cs tab))"
proof (induction cs rule: rev_induct)
  case Nil
  then show ?case by (simp add: saveCustomers_Nil)
next
  case (snoc d q)
  then show ?case
    by (auto simp: saveCustomers_snoc insert_or_replace_def distinct_map_filter)
qed

text \<open>
  After a page is saved, an id of the page has one row: the row of the last customer of
  the page with this id. The rows of the other ids are the rows the table had.
\<close>

lemma last_row_per_id:
  "c \<in> set cs \<Longrightarrow>
   filter (\<lambda>x. row_id x = customer_id c) (saveCustomers s n cs tab) =
     [customer_to_row s n (last (filter (\<lambda>d. customer_id d = customer_id c) cs))]"
proof (induction cs rule: rev_induct)
  case Nil
  then show ?case by simp
next
  case (snoc d q)
  show ?case
  proof (cases "customer_id d = customer_id c")
    case True
    then show ?thesis
      by (simp add: saveCustomers_snoc insert_or_replace_def row_id_customer_to_row)
  next
    case False
    with snoc.prems have "c \<in> set q" by auto
    from snoc.IH [OF this]
    have ih: "filter (\<lambda>x. row_id x = customer_id c) (saveCustomers s n q tab) =
              [customer_to_row s n (last (filter (\<lambda>d. customer_id d = customer_id c) q))]" .
    have "filter (\<lambda>x. row_id x = customer_id c) (saveCustomers s n (q @ [d]) tab) =
          filter (\<lambda>x. row_id x = customer_id c) (saveCustomers s n q tab)"
      using False
      by (auto simp: saveCustomers_snoc insert_or_replace_def row_id_customer_to_row
               intro: filter_cong)
    with ih False show ?thesis by simp
  qed
qed

lemma saveCustomers_frame:
  "filter (\<lambda>x. row_id x \<notin> customer_id ` set cs) (saveCustomers s n cs tab) =
   filter (\<lambda>x. row_id x \<notin> customer_id ` set cs) tab"
  by (subst saveCustomers_split) (simp add: filter_saved_empty)

lemma set_insert_desc: "set (insert_desc k r xs) = insert r (set xs)"
  by (induction xs) auto

lemma mset_insert_desc: "mset (insert_desc k r xs) = add_mset r (mset xs)"
  by (induction xs) auto

lemma sorted_insert_desc:
  "sorted_wrt (\<lambda>a b. k b \<le> k a) xs \<Longrightarrow> sorted_wrt (\<lambda>a b. k b \<le> k a) (insert_desc k r xs)"
  by (induction xs) (auto simp: set_insert_desc)

lemma mset_order_by_desc: "mset (order_by_desc k xs) = mset xs"
  by (induction xs) (auto simp: order_by_desc_def mset_insert_desc)

lemma sorted_order_by_desc: "sorted_wrt (\<lambda>a b. k b \<le> k a) (order_by_desc k xs)"
  by (induction xs) (auto simp: order_by_desc_def sorted_insert_desc)

lemma filter_insert_desc_eq:
  "sorted_wrt (\<lambda>a b. k b \<le> k a) xs \<Longrightarrow>
   filter (\<lambda>x. k x = t) (insert_desc k r xs) =
     (if k r = t then r # filter (\<lambda>x. k x = t) xs else filter (\<lambda>x. k x = t) xs)"
  by (induction xs) (auto simp: filter_empty_conv)

lemma stable_order_by_desc:
  "filter (\<lambda>x. k x = t) (order_by_desc k xs) = filter (\<lambda>x. k x = t) xs"
proof (induction xs)
  case Nil
  show ?case by (simp add: order_by_desc_def)
next
  case (Cons a xs)
  have "order_by_desc k (a # xs) = insert_desc k a (order_by_desc k xs)"
    by (simp add: order_by_desc_def)
  then show ?case
    using Cons sorted_order_by_desc [of k xs] by (simp add: filter_insert_desc_eq)
qed

text \<open>
  Claim C9, as the code has it. Applying \<^verbatim>\<open>saveCustomers\<close> to a page twice leaves the table
  that one application at the time of the second one leaves: the same rows, in the same
  order, with the same id, store and data, and with the write time of the second
  application. It is the table of the first application when both read the same time.
\<close>

theorem upsert_twice_is_once_at_later_time:
  "saveCustomers s t2 P (saveCustomers s t1 P tab) = saveCustomers s t2 P tab"
proof -
  have "saveCustomers s t2 P (saveCustomers s t1 P tab) =
        filter (\<lambda>x. row_id x \<notin> customer_id ` set P) (saveCustomers s t1 P tab) @
        saveCustomers s t2 P []"
    by (rule saveCustomers_split)
  also have "filter (\<lambda>x. row_id x \<notin> customer_id ` set P) (saveCustomers s t1 P tab) =
             filter (\<lambda>x. row_id x \<notin> customer_id ` set P) tab"
    by (subst saveCustomers_split) (simp add: filter_saved_empty)
  finally show ?thesis by (simp add: saveCustomers_split [of s t2 P tab])
qed

text \<open>
  Claim C9, as stated, fails: a second application one millisecond later leaves another
  \<open>updated_at\<close> (and another \<open>created_at\<close>, the customer having no \<open>createdAt\<close>).
\<close>

theorem upsert_twice_changes_write_time_counterexample:
  "saveCustomers ''evisu-us'' ''2025-11-13T07:08:26.003Z'' [bare_customer ''gid://shopify/Customer/1'']
     (saveCustomers ''evisu-us'' ''2025-11-13T07:08:26.002Z'' [bare_customer ''gid://shopify/Customer/1''] [])
   \<noteq> saveCustomers ''evisu-us'' ''2025-11-13T07:08:26.002Z'' [bare_customer ''gid://shopify/Customer/1''] []"
  by (simp add: saveCustomers_def insert_or_replace_def customer_to_row_def)

text \<open>
  Claim C4, as the code has it. The key of a cached record is its id alone, and a save
  is an upsert on this key. Saving a page for a store leaves every row whose id is not
  an id of the page as it was, in its place. For each id of the page it leaves exactly
  one row, whatever rows had this id before and whatever store they were saved for: the
  row of the last customer of the page with this id, of the store and with the write
  time of this save. And a table with no id twice has no id twice afterwards.
\<close>

theorem upsert_keyed_by_id_alone:
  "filter (\<lambda>x. row_id x \<notin> customer_id ` set cs) (saveCustomers s n cs tab) =
     filter (\<lambda>x. row_id x \<notin> customer_id ` set cs) tab \<and>
   (c \<in> set cs \<longrightarrow>
      filter (\<lambda>x. row_id x = customer_id c) (saveCustomers s n cs tab) =
        [customer_to_row s n (last (filter (\<lambda>d. customer_id d = customer_id c) cs))]) \<and>
   (distinct (map row_id tab) \<longrightarrow> distinct (map row_id (saveCustomers s n cs tab)))"
  using saveCustomers_frame [of cs s n tab] last_row_per_id [of c cs s n tab]
    saveCustomers_distinct [of tab s n cs]
  by blast

text \<open>
  The witness: the customers 9, 10 and 11 saved for \<open>evisu-us\<close> on a table that holds the
  customers 1 and 9 of \<open>evisu-hk\<close>. The row of customer 1 stays, and the row of customer 9
  is now the one of \<open>evisu-us\<close>.
\<close>

theorem upsert_keyed_by_id_alone_witness:
  "bare_customer ''gid://shopify/Customer/9'' \<in> set small_page \<and>
   distinct (map row_id
     (saveCustomers ''evisu-hk'' ''2025-11-13T07:08:26.002Z''
        [bare_customer ''gid://shopify/Customer/1'', bare_customer ''gid://shopify/Customer/9''] [])) \<and>
   filter (\<lambda>x. row_id x \<notin> customer_id ` set small_page)
     (saveCustomers ''evisu-us'' ''2025-11-13T07:08:26.003Z'' small_page
        (saveCustomers ''evisu-hk'' ''2025-11-13T07:08:26.002Z''
           [bare_customer ''gid://shopify/Customer/1'', bare_customer ''gid://shopify/Customer/9''] [])) =
     [customer_to_row ''evisu-hk'' ''2025-11-13T07:08:26.002Z''
        (bare_customer ''gid://shopify/Customer/1'')] \<and>
   filter (\<lambda>x. row_id x = ''gid://shopify/Customer/9'')
     (saveCustomers ''evisu-us'' ''2025-11-13T07:08:26.003Z'' small_page
        (saveCustomers ''evisu-hk'' ''2025-11-13T07:08:26.002Z''
           [bare_customer ''gid://shopify/Customer/1'', bare_customer ''gid://shopify/Customer/9''] [])) =
     [customer_to_row ''evisu-us'' ''2025-11-13T07:08:26.003Z''
        (bare_customer ''gid://shopify/Customer/9'')] \<and>
   distinct (map row_id
     (saveCustomers ''evisu-us'' ''2025-11-13T07:08:26.003Z'' small_page
        (saveCustomers ''evisu-hk'' ''2025-11-13T07:08:26.002Z''
           [bare_customer ''gid://shopify/Customer/1'', bare_customer ''gid://shopify/Customer/9''] [])))"
proof -
  define tab where "tab = saveCustomers ''evisu-hk'' ''2025-11-13T07:08:26.002Z''
    [bare_customer ''gid://shopify/Customer/1'', bare_customer ''gid://shopify/Customer/9''] []"
  define new where "new = saveCustomers ''evisu-us'' ''2025-11-13T07:08:26.003Z'' small_page tab"
  have h1: "bare_customer ''gid://shopify/Customer/9'' \<in> set small_page"
    by (simp add: small_page_def)
  have h2: "distinct (map row_id tab)"
    by (simp add: tab_def saveCustomers_def insert_or_replace_def customer_to_row_def
        bare_customer_def)
  have e1: "filter (\<lambda>x. row_id x \<notin> customer_id ` set small_page) tab =
            [customer_to_row ''evisu-hk'' ''2025-11-13T07:08:26.002Z''
               (bare_customer ''gid://shopify/Customer/1'')]"
    by (simp add: tab_def small_page_def saveCustomers_def insert_or_replace_def
        customer_to_row_def bare_customer_def)
  have e2: "last (filter (\<lambda>d. customer_id d = ''gid://shopify/Customer/9'') small_page) =
            bare_customer ''gid://shopify/Customer/9''"
    by (simp add: small_page_def bare_customer_def)
  have e3: "customer_id (bare_customer ''gid://shopify/Customer/9'') = ''gid://shopify/Customer/9''"
    by (simp add: bare_customer_def)
  from upsert_keyed_by_id_alone
         [of small_page "''evisu-us''" "''2025-11-13T07:08:26.003Z''" tab
             "bare_customer ''gid://shopify/Customer/9''"] h1 h2
  have "filter (\<lambda>x. row_id x \<notin> customer_id ` set small_page) new =
          filter (\<lambda>x. row_id x \<notin> customer_id ` set small_page) tab"
    and "filter (\<lambda>x. row_id x = customer_id (bare_customer ''gid://shopify/Customer/9'')) new =
          [customer_to_row ''evisu-us'' ''2025-11-13T07:08:26.003Z''
             (last (filter (\<lambda>d. customer_id d = customer_id (bare_customer ''gid://shopify/Customer/9''))
                      small_page))]"
    and "distinct (map row_id new)"
    unfolding new_def by blast+
  then have "filter (\<lambda>x. row_id x \<notin> customer_id ` set small_page) new =
          [customer_to_row ''evisu-hk'' ''2025-11-13T07:08:26.002Z''
             (bare_customer ''gid://shopify/Customer/1'')]"
    and "filter (\<lambda>x. row_id x = ''gid://shopify/Customer/9'') new =
          [customer_to_row ''evisu-us'' ''2025-11-13T07:08:26.003Z''
             (bare_customer ''gid://shopify/Customer/9'')]"
    and "distinct (map row_id new)"
    by (simp_all only: e1 e2 e3)
  with h1 h2 show ?thesis unfolding new_def tab_def by blast
qed

text \<open>
  Claim C4, as stated, fails: the customers 1 and 2 saved for one store, and then a
  customer saved under the id of customer 1 for another store, leave two rows, not
  three. The row of customer 2 is as it was, and customer 1 is no longer in the cache
  of the first store.
\<close>

theorem same_id_two_stores_counterexample:
  "map (\<lambda>r. (row_id r, store_name r))
     (saveCustomers ''evisu-us'' ''2025-11-13T07:08:26.003Z''
        [bare_customer ''gid://shopify/Customer/1'']
        (saveCustomers ''evisu-hk'' ''2025-11-13T07:08:26.002Z''
           [bare_customer ''gid://shopify/Customer/1'', bare_customer ''gid://shopify/Customer/2''] [])) =
     [(''gid://shopify/Customer/2'', ''evisu-hk''), (''gid://shopify/Customer/1'', ''evisu-us'')] \<and>
   getCustomerCount
     (saveCustomers ''evisu-us'' ''2025-11-13T07:08:26.003Z''
        [bare_customer ''gid://shopify/Customer/1'']
        (saveCustomers ''evisu-hk'' ''2025-11-13T07:08:26.002Z''
           [bare_customer ''gid://shopify/Customer/1'', bare_customer ''gid://shopify/Customer/2''] []))
     ''evisu-hk'' = 1 \<and>
   getCustomerCount
     (saveCustomers ''evisu-us'' ''2025-11-13T07:08:26.003Z''
        [bare_customer ''gid://shopify/Customer/1'']
        (saveCustomers ''evisu-hk'' ''2025-11-13T07:08:26.002Z''
           [bare_customer ''gid://shopify/Customer/1'', bare_customer ''gid://shopify/Customer/2''] []))
     ''evisu-us'' = 1"
  by (simp add: getCustomerCount_def saveCustomers_def insert_or_replace_def customer_to_row_def
      bare_customer_def)

text \<open>
  Claim C7, as the code has it. \<^verbatim>\<open>getCustomersByStore\<close> returns the customers of the rows of
  the store, each row once, ordered by \<open>updated_at\<close> descending and by nothing else: the
  rows of one write time come in the order the engine yields them, which is here their
  order in the table, not the order of their ids.
\<close>

theorem getCustomersByStore_ordered_by_updated_at:
  "getCustomersByStore tab s = map data (selectCustomersByStore tab s) \<and>
   sorted_wrt (\<lambda>a b. updated_at b \<le> updated_at a) (selectCustomersByStore tab s) \<and>
   mset (selectCustomersByStore tab s) = mset (filter (\<lambda>r. store_name r = s) tab) \<and>
   filter (\<lambda>r. updated_at r = t) (selectCustomersByStore tab s) =
     filter (\<lambda>r. updated_at r = t) (filter (\<lambda>r. store_name r = s) tab)"
  by (simp add: getCustomersByStore_def selectCustomersByStore_def sorted_order_by_desc
      mset_order_by_desc stable_order_by_desc)

text \<open>
  Claim C7, as stated, fails: the customers 9, 10 and 11, saved in one page and so at one
  time, are returned as 9, 10, 11, while their ids, compared as text, ascend as 10, 11, 9.
  The order of the table read backwards, 11, 10, 9, is not the asked order either.
\<close>

theorem no_externalId_tie_break_counterexample:
  "getCustomersByStore (customers small_world) ''evisu-us'' = small_page \<and>
   \<not> sorted_wrt cachedAt_desc_then_externalId_asc
       (selectCustomersByStore (customers small_world) ''evisu-us'') \<and>
   \<not> sorted_wrt cachedAt_desc_then_externalId_asc
       (rev (selectCustomersByStore (customers small_world) ''evisu-us''))"
  by (simp add: small_world_def empty_world_def small_page_def getCustomersByStore_def
      selectCustomersByStore_def order_by_desc_def saveCustomers_def insert_or_replace_def
      customer_to_row_def bare_customer_def or_str_def cachedAt_desc_then_externalId_asc_def)

section \<open>CSV lines\<close>

lemma parse_bare_run:
  "COMMA \<notin> set v \<Longrightarrow>
   rfc4180_parse Bare acc (v @ rest) = rfc4180_parse Bare (rev v @ acc) rest"
  by (induction v arbitrary: acc) auto

lemma parse_quoted_run:
  "rfc4180_parse Quoted acc (double_quotes v @ DQUOTE # rest) =
   rfc4180_parse QuoteSeen (rev v @ acc) rest"
  by (induction v arbitrary: acc) (auto simp: double_quotes_def)

lemma parse_escaped_last: "rfc4180_parse FieldStart [] (escapeCSVField v) = [v]"
proof (cases "COMMA \<in> set v \<or> DQUOTE \<in> set v \<or> LF \<in> set v \<or> CR \<in> set v")
  case True
  then show ?thesis
    using parse_quoted_run [of "[]" v "[]"] by (simp add: escapeCSVField_def)
next
  case False
  show ?thesis
  proof (cases v)
    case Nil
    then show ?thesis by (simp add: escapeCSVField_def)
  next
    case (Cons c cs)
    with False have "COMMA \<notin> set cs" "c \<noteq> COMMA" "c \<noteq> DQUOTE" by auto
    then show ?thesis
      using False Cons parse_bare_run [of cs "[c]" "[]"] by (simp add: escapeCSVField_def)
  qed
qed

lemma parse_escaped_more:
  "rfc4180_parse FieldStart [] (escapeCSVField v @ COMMA # rest) =
   v # rfc4180_parse FieldStart [] rest"
proof (cases "COMMA \<in> set v \<or> DQUOTE \<in> set v \<or> LF \<in> set v \<or> CR \<in> set v")
  case True
  then show ?thesis
    using parse_quoted_run [of "[]" v "COMMA # rest"] by (simp add: escapeCSVField_def)
next
  case False
  show ?thesis
  proof (cases v)
    case Nil
    then show ?thesis by (simp add: escapeCSVField_def)
  next
    case (Cons c cs)
    with False have "COMMA \<notin> set cs" "c \<noteq> COMMA" "c \<noteq> DQUOTE" by auto
    then show ?thesis
      using False Cons parse_bare_run [of cs "[c]" "COMMA # rest"]
      by (simp add: escapeCSVField_def)
  qed
qed

text \<open>
  What \<^verbatim>\<open>escapeCSVField\<close> and \<^verbatim>\<open>csvRowToLine\<close> write is read back as it was: the line of a
  row with at least one value parses to the values of the row.
\<close>

lemma csv_line_roundtrip: "row \<noteq> [] \<Longrightarrow> rfc4180_record (csvRowToLine row) = row"
  unfolding rfc4180_record_def csvRowToLine_def
proof (induction row rule: induct_list012)
  case 1
  then show ?case by simp
next
  case (2 x)
  then show ?case by (simp add: parse_escaped_last)
next
  case (3 x y zs)
  then show ?case using parse_escaped_more [of x] by simp
qed

text \<open>
  Claim C8 asks that every column of every cached record is read back as the record has
  it. The line is read back as the row, but the row is not the record: \<^verbatim>\<open>customerToCSVRow\<close>
  has already doubled the quotes of the note, and \<^verbatim>\<open>escapeCSVField\<close> doubles them again.
  The customer below has the same value, with a comma, a quote and a newline, as first
  name and as note: the first name is read back as it is, the note with two quotes for
  its one.
\<close>

theorem note_quotes_doubled_twice:
  "CustomerData.firstName quoting_customer = Some [CHR ''a'', COMMA, DQUOTE, CHR ''b'', LF] \<and>
   customer_note quoting_customer = Some [CHR ''a'', COMMA, DQUOTE, CHR ''b'', LF] \<and>
   map escapeCSVField (customerToCSVRow quoting_customer) ! 1 =
     [DQUOTE, CHR ''a'', COMMA, DQUOTE, DQUOTE, CHR ''b'', LF, DQUOTE] \<and>
   map escapeCSVField (customerToCSVRow quoting_customer) ! 9 =
     [DQUOTE, CHR ''a'', COMMA, DQUOTE, DQUOTE, DQUOTE, DQUOTE, CHR ''b'', LF, DQUOTE] \<and>
   rfc4180_record (csvRowToLine (customerToCSVRow quoting_customer)) ! 1 =
     [CHR ''a'', COMMA, DQUOTE, CHR ''b'', LF] \<and>
   rfc4180_record (csvRowToLine (customerToCSVRow quoting_customer)) ! 9 =
     [CHR ''a'', COMMA, DQUOTE, DQUOTE, CHR ''b'', LF]"
  by code_simp

section \<open>Runs\<close>

lemma customer_page_Nil: "customer_page a k = [] \<longleftrightarrow> k = 0"
  by (auto simp: customer_page_def)

lemma length_customer_page: "length (customer_page a k) = k"
  by (simp add: customer_page_def)

lemma fetch_loop_numeral:
  "fetch_loop (numeral k) e store i c t w =
     (case fetch_step e store i c t w of
        Continue c' t' w' \<Rightarrow> fetch_loop (pred_numeral k) e store i c' t' w'
      | Finished t' w' \<Rightarrow> Some (Inr t', w')
      | Thrown msg w' \<Rightarrow> Some (Inl msg, w'))"
  by (simp add: numeral_eq_Suc)

lemma sample_epoch: "epoch_ms (sample_clock 0) = 1763017706000"
  by (simp add: sample_clock_def)

lemma show_sample_epoch: "show_nat 1763017706000 = ''1763017706000''"
  by (simp add: show_nat.simps digit_char_def)

lemma sample_iso: "toISOString (sample_clock n) = ''2025-11-13T07:08:26.'' @ pad 3 n @ ''Z''"
  by (simp add: toISOString_def sample_clock_def pad_2 pad_4 digit_char_def)

lemma sample_iso_ticks:
  "toISOString (sample_clock (Suc 0)) = ''2025-11-13T07:08:26.001Z''"
  "toISOString (sample_clock (Suc (Suc 0))) = ''2025-11-13T07:08:26.002Z''"
  "toISOString (sample_clock (Suc (Suc (Suc 0)))) = ''2025-11-13T07:08:26.003Z''"
  "toISOString (sample_clock (Suc (Suc (Suc (Suc 0))))) = ''2025-11-13T07:08:26.004Z''"
proof -
  have n: "toISOString (sample_clock 1) = ''2025-11-13T07:08:26.001Z''"
    "toISOString (sample_clock 2) = ''2025-11-13T07:08:26.002Z''"
    "toISOString (sample_clock 3) = ''2025-11-13T07:08:26.003Z''"
    "toISOString (sample_clock 4) = ''2025-11-13T07:08:26.004Z''"
    by (simp_all only: sample_iso pad_3) (simp_all add: digit_char_def)
  have s: "Suc 0 = 1" "Suc (Suc 0) = 2" "Suc (Suc (Suc 0)) = 3" "Suc (Suc (Suc (Suc 0))) = 4"
    by simp_all
  show "toISOString (sample_clock (Suc 0)) = ''2025-11-13T07:08:26.001Z''"
    "toISOString (sample_clock (Suc (Suc 0))) = ''2025-11-13T07:08:26.002Z''"
    "toISOString (sample_clock (Suc (Suc (Suc 0)))) = ''2025-11-13T07:08:26.003Z''"
    "toISOString (sample_clock (Suc (Suc (Suc (Suc 0))))) = ''2025-11-13T07:08:26.004Z''"
    by (simp_all only: s(4) n, simp_all only: s(3) n, simp_all only: s(2) n, simp_all only: s(1) n)
qed

lemma sample_iso_later:
  "toISOString (sample_clock 5) = ''2025-11-13T07:08:26.005Z''"
  "toISOString (sample_clock 6) = ''2025-11-13T07:08:26.006Z''"
  "toISOString (sample_clock 7) = ''2025-11-13T07:08:26.007Z''"
  "toISOString (sample_clock 8) = ''2025-11-13T07:08:26.008Z''"
  "toISOString (sample_clock 9) = ''2025-11-13T07:08:26.009Z''"
  "toISOString (sample_clock 10) = ''2025-11-13T07:08:26.010Z''"
  by (simp_all only: sample_iso pad_3) (simp_all add: digit_char_def)


lemma sample_epoch_5: "epoch_ms (sample_clock 5) = 1763017706005"
  by (simp add: sample_clock_def)

lemma show_sample_epoch_5: "show_nat 1763017706005 = ''1763017706005''"
  by (simp add: show_nat.simps digit_char_def)

lemma csv_timestamp_date:
  "csv_timestamp d = pad 4 (year d) @ ''-'' @ pad 2 (month d) @ ''-'' @ pad 2 (day d)"
proof -
  define f where "f = (\<lambda>c. if c = CHR '':'' \<or> c = CHR ''.'' then CHR ''-'' else c)"
  define A where "A = pad 4 (year d) @ ''-'' @ pad 2 (month d) @ ''-'' @ pad 2 (day d)"
  define B where "B = pad 2 (hours d) @ '':'' @ pad 2 (minutes d) @ '':'' @
                      pad 2 (seconds d) @ ''.'' @ pad 3 (millis d) @ ''Z''"
  have iso: "toISOString d = A @ CHR ''T'' # B"
    by (simp add: toISOString_def A_def B_def)
  have plain: "\<And>x. x \<in> set A \<Longrightarrow> x \<noteq> CHR ''T'' \<and> x \<noteq> CHR '':'' \<and> x \<noteq> CHR ''.''"
    unfolding A_def by (rule date_plain)
  have "map f A = A"
    by (rule map_idI) (use plain in \<open>simp add: f_def\<close>)
  then have m: "map f (toISOString d) = A @ CHR ''T'' # map f B"
    by (simp add: iso f_def)
  have "takeWhile (\<lambda>c. c \<noteq> CHR ''T'') (A @ CHR ''T'' # map f B) =
        A @ takeWhile (\<lambda>c. c \<noteq> CHR ''T'') (CHR ''T'' # map f B)"
    by (rule takeWhile_append2) (use plain in simp)
  then have "takeWhile (\<lambda>c. c \<noteq> CHR ''T'') (map f (toISOString d)) = A"
    by (simp add: m)
  then show ?thesis by (simp add: csv_timestamp_def f_def A_def)
qed

lemma sample_csv_path:
  "csv_output_file ''/app/exports'' s (sample_clock n) =
     ''/app/exports/customers-'' @ s @ ''-2025-11-13.csv''"
  by (simp add: csv_output_file_def csv_timestamp_date sample_clock_def pad_2 pad_4 digit_char_def)

lemma small_page_length: "length small_page = 3" "small_page \<noteq> []"
  by (simp_all add: small_page_def)

lemma us_cache:
  "getCustomersByStore (saveCustomers ''evisu-us'' ''2025-11-13T07:08:26.002Z'' small_page [])
     ''evisu-us'' = small_page"
  by (simp add: small_page_def getCustomersByStore_def
      selectCustomersByStore_def order_by_desc_def saveCustomers_def insert_or_replace_def
      customer_to_row_def bare_customer_def or_str_def)

text \<open>The export of the second store leaves the first store no cached customer.\<close>

lemma taken_over_cache:
  "getCustomersByStore
     (saveCustomers ''evisu-hk'' ''2025-11-13T07:08:26.007Z'' small_page
        (saveCustomers ''evisu-us'' ''2025-11-13T07:08:26.002Z'' small_page []))
     ''evisu-us'' = []"
  by (simp add: small_page_def getCustomersByStore_def
      selectCustomersByStore_def order_by_desc_def saveCustomers_def insert_or_replace_def
      customer_to_row_def bare_customer_def or_str_def)

subsection \<open>What an update leaves of a job\<close>

text \<open>
  No call of \<^verbatim>\<open>updateExportJob\<close> in the service has a \<^verbatim>\<open>lastCursor\<close> member, and the
  \<^verbatim>\<open>INSERT\<close> of \<^verbatim>\<open>createExportJob\<close> has no \<^verbatim>\<open>last_cursor\<close> column: the cursors of a table are
  what they were after every update, and an update of whatever members takes no cursor away.
\<close>

lemma lastCursor_apply_updates:
  "new_lastCursor u = None \<Longrightarrow> lastCursor (apply_updates u j) = lastCursor j"
  by (simp add: apply_updates_def)

lemma cursors_updateExportJob:
  "new_lastCursor u = None \<Longrightarrow> map lastCursor (updateExportJob i u jobs) = map lastCursor jobs"
  by (simp add: updateExportJob_def lastCursor_apply_updates)


lemma cursor_free_cursors: "cursor_free jobs \<longleftrightarrow> set (map lastCursor jobs) \<subseteq> {None}"
  by (auto simp: cursor_free_def list_all_iff)

lemma job_ids_updateExportJob: "map job_id (updateExportJob i u jobs) = map job_id jobs"
  by (simp add: updateExportJob_def apply_updates_def)

lemma counts_updateExportJob:
  "new_processedCustomers u = None \<Longrightarrow>
   map processedCustomers (updateExportJob i u jobs) = map processedCustomers jobs"
  by (simp add: updateExportJob_def apply_updates_def)

lemma updateExportJob_other:
  "\<forall>j \<in> set old. job_id j \<noteq> i \<Longrightarrow> updateExportJob i u old = old"
  by (simp add: updateExportJob_def map_idI)

lemma take_updateExportJob:
  "take n (updateExportJob i u jobs) = updateExportJob i u (take n jobs)"
  by (simp add: updateExportJob_def take_map)

lemma nth_updateExportJob:
  "k < length jobs \<Longrightarrow>
   updateExportJob i u jobs ! k =
     (if job_id (jobs ! k) = i then apply_updates u (jobs ! k) else jobs ! k)"
  by (simp add: updateExportJob_def)

lemma counted_update:
  "\<forall>j \<in> set (updateExportJob i (no_updates \<lparr> new_processedCustomers := Some n \<rparr>) jobs).
     job_id j = i \<longrightarrow> processedCustomers j = n"
proof
  fix j
  assume "j \<in> set (updateExportJob i (no_updates \<lparr> new_processedCustomers := Some n \<rparr>) jobs)"
  then obtain x where x: "x \<in> set jobs"
    "j = (if job_id x = i then apply_updates (no_updates \<lparr> new_processedCustomers := Some n \<rparr>) x else x)"
    unfolding updateExportJob_def by (auto simp only: set_map image_iff)
  show "job_id j = i \<longrightarrow> processedCustomers j = n"
    unfolding x(2) by (cases "job_id x = i") (simp_all add: apply_updates_def no_updates_def)
qed

subsection \<open>Tables whose counts are not below those of an older table\<close>

lemma never_below_refl: "never_below jobs jobs"
  by (simp add: never_below_def)

lemma never_below_trans:
  "never_below a b \<Longrightarrow> never_below b c \<Longrightarrow> never_below a c"
  unfolding never_below_def by (auto intro: order_trans)

lemma never_below_prefix: "take (length old) new = old \<Longrightarrow> never_below old new"
proof -
  assume t: "take (length old) new = old"
  then have "length (take (length old) new) = length old" by simp
  then have "length old \<le> length new" by simp
  moreover have "\<And>k. k < length old \<Longrightarrow> new ! k = old ! k"
    using t by (metis nth_take)
  ultimately show ?thesis by (simp add: never_below_def)
qed

lemma never_below_same:
  assumes "map job_id new = map job_id old"
    and "map processedCustomers new = map processedCustomers old"
  shows "never_below old new"
proof -
  have l: "length new = length old" using assms(1) by (metis length_map)
  have "\<And>k. k < length old \<Longrightarrow> job_id (new ! k) = job_id (old ! k)"
    using assms(1) l by (metis nth_map)
  moreover have "\<And>k. k < length old \<Longrightarrow> processedCustomers (new ! k) = processedCustomers (old ! k)"
    using assms(2) l by (metis nth_map)
  ultimately show ?thesis using l by (simp add: never_below_def)
qed

lemma cursor_free_same:
  "map lastCursor new = map lastCursor old \<Longrightarrow> cursor_free old \<Longrightarrow> cursor_free new"
  by (simp add: cursor_free_cursors)

lemma never_below_update:
  assumes "\<forall>j \<in> set jobs. job_id j = i \<longrightarrow> processedCustomers j \<le> n"
  shows "never_below jobs
           (updateExportJob i (no_updates \<lparr> new_processedCustomers := Some n \<rparr>) jobs)"
proof -
  let ?u = "no_updates \<lparr> new_processedCustomers := Some n \<rparr>"
  have len: "length jobs \<le> length (updateExportJob i ?u jobs)"
    by (simp add: updateExportJob_def)
  have ids: "job_id (updateExportJob i ?u jobs ! k) = job_id (jobs ! k)" if "k < length jobs" for k
    using that by (simp add: nth_updateExportJob apply_updates_def)
  have cnt: "processedCustomers (jobs ! k) \<le> processedCustomers (updateExportJob i ?u jobs ! k)"
    if "k < length jobs" for k
  proof -
    from that have "jobs ! k \<in> set jobs" by simp
    with assms have "job_id (jobs ! k) = i \<longrightarrow> processedCustomers (jobs ! k) \<le> n" by blast
    with that show ?thesis by (simp add: nth_updateExportJob apply_updates_def)
  qed
  from len ids cnt show ?thesis unfolding never_below_def by blast
qed

subsection \<open>A turn of the loop\<close>

text \<open>
  A turn leaves the jobs as they are, or writes the new running total into the processed
  count of the job of the run. When the count of this job is the running total before
  the turn, it is the running total after it, and no count of the table has gone down.
\<close>

lemma fetch_step_jobs:
  "export_jobs (result_world (fetch_step e store i c t w)) = export_jobs w \<or>
   (\<exists>n. export_jobs (result_world (fetch_step e store i c t w)) =
        updateExportJob i (no_updates \<lparr> new_processedCustomers := Some n \<rparr>) (export_jobs w))"
  by (auto simp: fetch_step_def result_world_def Let_def read_clock_def update_job_def
           split: api_response.splits)

lemma fetch_step_cursors:
  "map lastCursor (export_jobs (result_world (fetch_step e store i c t w))) =
   map lastCursor (export_jobs w)"
  using fetch_step_jobs [of e store i c t w]
  by (auto simp: cursors_updateExportJob no_updates_def)

lemma fetch_step_prefix:
  assumes "\<forall>j \<in> set old. job_id j \<noteq> i" and "take n (export_jobs w) = old"
  shows "take n (export_jobs (result_world (fetch_step e store i c t w))) = old"
  using fetch_step_jobs [of e store i c t w] assms
  by (auto simp: take_updateExportJob updateExportJob_other)

lemma fetch_step_total:
  "export_jobs (result_world (fetch_step e store i c tot w)) = export_jobs w \<and>
   result_total tot (fetch_step e store i c tot w) = tot \<or>
   (\<exists>n. tot \<le> n \<and> result_total tot (fetch_step e store i c tot w) = n \<and>
        export_jobs (result_world (fetch_step e store i c tot w)) =
          updateExportJob i (no_updates \<lparr> new_processedCustomers := Some n \<rparr>) (export_jobs w))"
  by (auto simp: fetch_step_def result_world_def result_total_def Let_def read_clock_def
        update_job_def split: api_response.splits)

lemma fetch_step_count:
  assumes "\<forall>j \<in> set (export_jobs w). job_id j = i \<longrightarrow> processedCustomers j = tot"
  shows "never_below (export_jobs w) (export_jobs (result_world (fetch_step e store i c tot w)))"
    and "tot \<le> result_total tot (fetch_step e store i c tot w)"
    and "\<forall>j \<in> set (export_jobs (result_world (fetch_step e store i c tot w))).
           job_id j = i \<longrightarrow> processedCustomers j = result_total tot (fetch_step e store i c tot w)"
proof -
  let ?r = "fetch_step e store i c tot w"
  from fetch_step_total [of e store i c tot w]
  have all: "never_below (export_jobs w) (export_jobs (result_world ?r)) \<and>
             tot \<le> result_total tot ?r \<and>
             (\<forall>j \<in> set (export_jobs (result_world ?r)).
                job_id j = i \<longrightarrow> processedCustomers j = result_total tot ?r)"
  proof
    assume "export_jobs (result_world ?r) = export_jobs w \<and> result_total tot ?r = tot"
    with assms show ?thesis by (simp add: never_below_refl)
  next
    assume "\<exists>n. tot \<le> n \<and> result_total tot ?r = n \<and>
              export_jobs (result_world ?r) =
                updateExportJob i (no_updates \<lparr> new_processedCustomers := Some n \<rparr>) (export_jobs w)"
    then obtain n where n: "tot \<le> n" "result_total tot ?r = n"
      "export_jobs (result_world ?r) =
         updateExportJob i (no_updates \<lparr> new_processedCustomers := Some n \<rparr>) (export_jobs w)"
      by blast
    from assms n(1) have "\<forall>j \<in> set (export_jobs w). job_id j = i \<longrightarrow> processedCustomers j \<le> n"
      by auto
    then have "never_below (export_jobs w) (export_jobs (result_world ?r))"
      unfolding n(3) by (rule never_below_update)
    moreover have "\<forall>j \<in> set (export_jobs (result_world ?r)).
                     job_id j = i \<longrightarrow> processedCustomers j = result_total tot ?r"
      unfolding n(2) n(3) by (rule counted_update)
    ultimately show ?thesis using n(1,2) by simp
  qed
  from all show "never_below (export_jobs w) (export_jobs (result_world ?r))" by blast
  from all show "tot \<le> result_total tot ?r" by blast
  from all show "\<forall>j \<in> set (export_jobs (result_world ?r)).
                   job_id j = i \<longrightarrow> processedCustomers j = result_total tot ?r" by blast
qed

lemma fetch_loop_jobs:
  "fetch_loop k e store i c t w = Some (r, w') \<Longrightarrow>
   map lastCursor (export_jobs w') = map lastCursor (export_jobs w) \<and>
   ((\<forall>j \<in> set old. job_id j \<noteq> i) \<longrightarrow> take n (export_jobs w) = old \<longrightarrow>
      take n (export_jobs w') = old)"
proof (induction k arbitrary: c t w)
  case 0
  then show ?case by simp
next
  case (Suc k)
  have cur: "map lastCursor (export_jobs (result_world (fetch_step e store i c t w))) =
             map lastCursor (export_jobs w)"
    by (rule fetch_step_cursors)
  have pre: "(\<forall>j \<in> set old. job_id j \<noteq> i) \<longrightarrow> take n (export_jobs w) = old \<longrightarrow>
             take n (export_jobs (result_world (fetch_step e store i c t w))) = old"
    using fetch_step_prefix by blast
  show ?case
  proof (cases "fetch_step e store i c t w")
    case (Continue c1 t1 w1)
    with Suc.prems have "fetch_loop k e store i c1 t1 w1 = Some (r, w')" by simp
    from Suc.IH [OF this] cur pre Continue show ?thesis
      by (simp add: result_world_def)
  next
    case (Finished t1 w1)
    with Suc.prems have "w' = w1" by simp
    with cur pre Finished show ?thesis by (simp add: result_world_def)
  next
    case (Thrown m w1)
    with Suc.prems have "w' = w1" by simp
    with cur pre Thrown show ?thesis by (simp add: result_world_def)
  qed
qed

subsection \<open>A run that is given no job\<close>

text \<open>
  The run adds a job of its own, under an id no job of the table has, and updates this
  job only: the jobs the table had are untouched, and the new job has no cursor.
\<close>

lemma getExportJob_None: "getExportJob jobs i = None \<Longrightarrow> \<forall>j \<in> set jobs. job_id j \<noteq> i"
  by (auto simp: getExportJob_def find_None_iff)

lemma createExportJob_jobs:
  assumes "createExportJob e store w = (r, w')"
  shows "(\<exists>m. r = Inl m) \<and> export_jobs w' = export_jobs w \<or>
         (\<exists>j. r = Inr j \<and> export_jobs w' = export_jobs w @ [j] \<and> lastCursor j = None \<and>
              processedCustomers j = 0 \<and> (\<forall>x \<in> set (export_jobs w). job_id x \<noteq> job_id j))"
  using assms getExportJob_None
  by (auto simp: createExportJob_def Let_def read_clock_def split: if_splits)

lemma fetchAndSaveCustomers_new_job:
  assumes "fetchAndSaveCustomers k e store None w = Some (r, w')"
  shows "take (length (export_jobs w)) (export_jobs w') = export_jobs w"
    and "cursor_free (export_jobs w) \<Longrightarrow> cursor_free (export_jobs w')"
proof -
  let ?old = "export_jobs w"
  have both: "take (length ?old) (export_jobs w') = ?old \<and>
              (cursor_free ?old \<longrightarrow> cursor_free (export_jobs w'))"
  proof (cases "configured e store")
    case False
    with assms show ?thesis by (simp add: fetchAndSaveCustomers_def)
  next
    case True
    obtain r1 w1 where c: "createExportJob e store w = (r1, w1)" by (cases "createExportJob e store w")
    from createExportJob_jobs [OF c] show ?thesis
    proof
      assume "(\<exists>m. r1 = Inl m) \<and> export_jobs w1 = ?old"
      with assms True c show ?thesis
        by (auto simp: fetchAndSaveCustomers_def or_opt_def)
    next
      assume "\<exists>j. r1 = Inr j \<and> export_jobs w1 = ?old @ [j] \<and> lastCursor j = None \<and>
              processedCustomers j = 0 \<and> (\<forall>x \<in> set ?old. job_id x \<noteq> job_id j)"
      then obtain j where j: "r1 = Inr j" "export_jobs w1 = ?old @ [j]" "lastCursor j = None"
        "\<forall>x \<in> set ?old. job_id x \<noteq> job_id j" by blast
      let ?w2 = "update_job (job_id j) (no_updates \<lparr> new_status := Some in_progress \<rparr>) w1"
      have w2: "take (length ?old) (export_jobs ?w2) = ?old"
        using j by (simp add: update_job_def take_updateExportJob updateExportJob_other)
      have c2: "map lastCursor (export_jobs ?w2) = map lastCursor ?old @ [None]"
        using j by (simp add: update_job_def cursors_updateExportJob no_updates_def)
      have unf: "fetchAndSaveCustomers k e store None w =
          (case fetch_loop k e store (job_id j) None 0 ?w2 of
             None \<Rightarrow> None
           | Some (Inr tot, w3) \<Rightarrow>
               Some (Inr (tot, job_id j),
                     update_job (job_id j)
                       (no_updates \<lparr> new_status := Some completed, new_totalCustomers := Some tot,
                          new_completedAt := Some (toISOString (clock e (ticks w3))) \<rparr>)
                       (w3 \<lparr> ticks := ticks w3 + 1 \<rparr>))
           | Some (Inl msg, w3) \<Rightarrow>
               Some (Inl msg,
                     update_job (job_id j)
                       (no_updates \<lparr> new_status := Some failed, new_error := Some msg,
                          new_completedAt := Some (toISOString (clock e (ticks w3))) \<rparr>)
                       (w3 \<lparr> ticks := ticks w3 + 1 \<rparr>)))"
        using True c j(1)
        by (auto simp: fetchAndSaveCustomers_def Let_def or_opt_def read_clock_def
                 split: option.splits prod.splits sum.splits)
      from assms unf obtain r3 w3 where
        loop: "fetch_loop k e store (job_id j) None 0 ?w2 = Some (r3, w3)"
        by (cases "fetch_loop k e store (job_id j) None 0 ?w2") auto
      have fin: "\<exists>u. new_lastCursor u = None \<and>
                  export_jobs w' = updateExportJob (job_id j) u (export_jobs w3)"
      proof (cases r3)
        case (Inl msg)
        with assms unf loop have "export_jobs w' = updateExportJob (job_id j)
            (no_updates \<lparr> new_status := Some failed, new_error := Some msg,
               new_completedAt := Some (toISOString (clock e (ticks w3))) \<rparr>) (export_jobs w3)"
          by (auto simp: update_job_def)
        then show ?thesis by (intro exI conjI) (auto simp: no_updates_def)
      next
        case (Inr tot)
        with assms unf loop have "export_jobs w' = updateExportJob (job_id j)
            (no_updates \<lparr> new_status := Some completed, new_totalCustomers := Some tot,
               new_completedAt := Some (toISOString (clock e (ticks w3))) \<rparr>) (export_jobs w3)"
          by (auto simp: update_job_def)
        then show ?thesis by (intro exI conjI) (auto simp: no_updates_def)
      qed
      from fetch_loop_jobs [OF loop, of ?old "length ?old"] j(4) w2 c2
      have w3: "take (length ?old) (export_jobs w3) = ?old"
        "map lastCursor (export_jobs w3) = map lastCursor ?old @ [None]" by simp_all
      from fin obtain u where u: "new_lastCursor u = None"
        "export_jobs w' = updateExportJob (job_id j) u (export_jobs w3)" by blast
      have "take (length ?old) (export_jobs w') = ?old"
        using u w3 j(4) by (simp add: take_updateExportJob updateExportJob_other)
      moreover have "map lastCursor (export_jobs w') = map lastCursor ?old @ [None]"
        using u w3 by (simp add: cursors_updateExportJob)
      ultimately show ?thesis by (auto simp: cursor_free_cursors)
    qed
  qed
  from both show "take (length ?old) (export_jobs w') = ?old" by blast
  from both show "cursor_free ?old \<Longrightarrow> cursor_free (export_jobs w')" by blast
qed

lemma exportCustomersToCSV_jobs:
  "map lastCursor (export_jobs (snd (exportCustomersToCSV e store j w))) = map lastCursor (export_jobs w)"
  "map job_id (export_jobs (snd (exportCustomersToCSV e store j w))) = map job_id (export_jobs w)"
  "map processedCustomers (export_jobs (snd (exportCustomersToCSV e store j w))) =
     map processedCustomers (export_jobs w)"
  by (simp_all add: exportCustomersToCSV_def Let_def read_clock_def update_job_def
        cursors_updateExportJob job_ids_updateExportJob counts_updateExportJob no_updates_def)

subsection \<open>A resume when no job has a cursor\<close>

text \<open>
  The route and the command look the job up in the table, so the job they find has no
  cursor either, and they refuse: no work is started and the state is left as it is.
\<close>

lemma find_member: "find P xs = Some j \<Longrightarrow> j \<in> set xs"
  by (induction xs) (auto split: if_splits)

lemma set_order_by_desc: "set (order_by_desc k xs) = set xs"
  by (induction xs) (auto simp: order_by_desc_def set_insert_desc)

lemma getExportJobsByStore_subset: "set (getExportJobsByStore jobs store n) \<subseteq> set jobs"
proof -
  have "set (getExportJobsByStore jobs store n) \<subseteq>
        set (order_by_desc startedAt (filter (\<lambda>j. storeName j = store) jobs))"
    unfolding getExportJobsByStore_def by (rule set_take_subset)
  also have "\<dots> \<subseteq> set jobs" by (simp add: set_order_by_desc)
  finally show ?thesis .
qed

lemma jobToResume_member:
  assumes "jobToResume jobs store jobId = Some j"
  shows "j \<in> set jobs"
proof (cases "if or_opt jobId [] \<noteq> [] then getExportJob jobs (or_opt jobId []) else None")
  case None
  with assms have "find (\<lambda>j. status j = failed \<or> status j = in_progress)
                     (getExportJobsByStore jobs store 10) = Some j"
    by (simp add: jobToResume_def)
  then have "j \<in> set (getExportJobsByStore jobs store 10)" by (rule find_member)
  with getExportJobsByStore_subset show ?thesis by blast
next
  case (Some x)
  with assms have "x = j" by (simp add: jobToResume_def)
  with Some have "getExportJob jobs (or_opt jobId []) = Some j" by (simp split: if_splits)
  then show ?thesis unfolding getExportJob_def by (rule find_member)
qed

lemma cursor_free_member: "cursor_free jobs \<Longrightarrow> j \<in> set jobs \<Longrightarrow> lastCursor j = None"
  by (simp add: cursor_free_def list_all_iff)

lemma resume_refused:
  assumes "cursor_free (export_jobs (world srv))"
  shows "snd (post_export_resume srv store jobId c) = (srv, None)"
proof (cases "jobToResume (export_jobs (world srv)) store jobId")
  case None
  then show ?thesis by (simp add: post_export_resume_def)
next
  case (Some j)
  then have "j \<in> set (export_jobs (world srv))" by (rule jobToResume_member)
  with assms have "lastCursor j = None" by (rule cursor_free_member)
  with Some show ?thesis by (simp add: post_export_resume_def or_opt_def)
qed

lemma cli_resume_refused:
  assumes "cursor_free (export_jobs w)"
  shows "cli k e CliResume store w = Some (1, w)"
proof (cases "find (\<lambda>j. status j = failed) (getExportJobsByStore (export_jobs w) store 10)")
  case None
  then show ?thesis by (simp add: cli_def)
next
  case (Some j)
  then have "j \<in> set (getExportJobsByStore (export_jobs w) store 10)" by (rule find_member)
  with getExportJobsByStore_subset have "j \<in> set (export_jobs w)" by blast
  with assms have "lastCursor j = None" by (rule cursor_free_member)
  with Some show ?thesis by (simp add: cli_def or_opt_def)
qed

subsection \<open>Operations\<close>

text \<open>
  From a table without cursors, every operation leaves a table without cursors, in which
  every job the older table had is in its place with a processed count that is not below
  what it was.
\<close>

lemma run_export:
  assumes "run_task k e (RunExport store c) srv = Some srv'"
  shows "never_below (export_jobs (world srv)) (export_jobs (world srv'))"
    and "cursor_free (export_jobs (world srv)) \<Longrightarrow> cursor_free (export_jobs (world srv'))"
proof -
  from assms obtain r w1 where
    f: "fetchAndSaveCustomers k e store None (world srv) = Some (r, w1)"
    by (auto simp: run_task_def split: option.splits)
  from assms f have w': "world srv' = w1 \<or> (\<exists>i. world srv' = snd (exportCustomersToCSV e store (Some i) w1))"
    by (auto simp: run_task_def Let_def split: sum.splits if_splits)
  have a: "never_below (export_jobs (world srv)) (export_jobs w1)"
    by (rule never_below_prefix) (rule fetchAndSaveCustomers_new_job(1) [OF f])
  from w' show "never_below (export_jobs (world srv)) (export_jobs (world srv'))"
  proof
    assume "world srv' = w1" with a show ?thesis by simp
  next
    assume "\<exists>i. world srv' = snd (exportCustomersToCSV e store (Some i) w1)"
    then obtain i where i: "world srv' = snd (exportCustomersToCSV e store (Some i) w1)" ..
    have "never_below (export_jobs w1) (export_jobs (world srv'))"
      unfolding i by (rule never_below_same) (rule exportCustomersToCSV_jobs)+
    with a show ?thesis by (rule never_below_trans)
  qed
  assume cf: "cursor_free (export_jobs (world srv))"
  then have b: "cursor_free (export_jobs w1)"
    by (rule fetchAndSaveCustomers_new_job(2) [OF f])
  from w' show "cursor_free (export_jobs (world srv'))"
  proof
    assume "world srv' = w1" with b show ?thesis by simp
  next
    assume "\<exists>i. world srv' = snd (exportCustomersToCSV e store (Some i) w1)"
    then obtain i where i: "world srv' = snd (exportCustomersToCSV e store (Some i) w1)" ..
    show ?thesis unfolding i
      by (rule cursor_free_same [OF exportCustomersToCSV_jobs(1) b])
  qed
qed

lemma exit_of_world: "exit_of res = (code, w') \<Longrightarrow> snd res = w'"
  by (cases res) (auto simp: exit_of_def split: sum.splits)

lemma cli_keeps:
  assumes "cli k e cmd store w = Some (code, w')" and "cursor_free (export_jobs w)"
  shows "never_below (export_jobs w) (export_jobs w') \<and> cursor_free (export_jobs w')"
proof (cases "store = [] \<or> \<not> in_storeConfigs store")
  case True
  with assms show ?thesis by (simp add: cli_def never_below_refl)
next
  case False
  show ?thesis
  proof (cases cmd)
    case CliFetch
    with assms False obtain r where f: "fetchAndSaveCustomers k e store None w = Some (r, w')"
      by (auto simp: cli_def dest: exit_of_world)
    from fetchAndSaveCustomers_new_job [OF f] assms(2) show ?thesis
      by (simp add: never_below_prefix)
  next
    case CliCsv
    with assms False have w': "w' = snd (exportCustomersToCSV e store None w)"
      by (auto simp: cli_def exit_of_def split: prod.splits sum.splits)
    show ?thesis unfolding w'
      using never_below_same [OF exportCustomersToCSV_jobs(2,3)]
        cursor_free_same [OF exportCustomersToCSV_jobs(1) assms(2)] by blast
  next
    case CliBoth
    show ?thesis
    proof (cases "fetchAndSaveCustomers k e store None w")
      case None
      with assms CliBoth False show ?thesis by (simp add: cli_def)
    next
      case (Some p)
      obtain r w1 where p: "p = (r, w1)" by (cases p)
      have f: "fetchAndSaveCustomers k e store None w = Some (r, w1)" using Some p by simp
      have a: "never_below (export_jobs w) (export_jobs w1)" "cursor_free (export_jobs w1)"
        using fetchAndSaveCustomers_new_job [OF f] assms(2) by (simp_all add: never_below_prefix)
      show ?thesis
      proof (cases r)
        case (Inl msg)
        with assms CliBoth False f have "w' = w1" by (simp add: cli_def)
        with a show ?thesis by simp
      next
        case (Inr v)
        obtain n i where v: "v = (n, i)" by (cases v)
        from assms CliBoth False f Inr v
        have "exit_of (exportCustomersToCSV e store (Some i) w1) = (code, w')"
          by (simp add: cli_def)
        from exit_of_world [OF this]
        have i: "w' = snd (exportCustomersToCSV e store (Some i) w1)" by simp
        have "never_below (export_jobs w1) (export_jobs w')"
          unfolding i by (rule never_below_same) (rule exportCustomersToCSV_jobs)+
        with a(1) have "never_below (export_jobs w) (export_jobs w')" by (rule never_below_trans)
        moreover have "cursor_free (export_jobs w')"
          unfolding i by (rule cursor_free_same [OF exportCustomersToCSV_jobs(1) a(2)])
        ultimately show ?thesis by blast
      qed
    qed
  next
    case CliResume
    with assms cli_resume_refused [OF assms(2), of k e store] show ?thesis
      by (simp add: never_below_refl)
  qed
qed

lemma exec_op_keeps:
  assumes "exec_op k e op srv = Some (r, srv')" and "cursor_free (export_jobs (world srv))"
  shows "never_below (export_jobs (world srv)) (export_jobs (world srv')) \<and>
         cursor_free (export_jobs (world srv'))"
proof (cases op)
  case (Start store c)
  obtain a srv1 t where p: "post_export srv store c = (a, srv1, t)"
    by (cases "post_export srv store c")
  have w1: "world srv1 = world srv"
    using p by (auto simp: post_export_def split: if_splits)
  show ?thesis
  proof (cases t)
    case None
    with assms Start p w1 show ?thesis
      by (auto simp: exec_op_def with_task_def never_below_refl)
  next
    case (Some t1)
    with p have t1: "t1 = RunExport store c" by (auto simp: post_export_def split: if_splits)
    from assms Start p Some t1 have "run_task k e (RunExport store c) srv1 = Some srv'"
      by (auto simp: exec_op_def with_task_def)
    from run_export [OF this] assms(2) w1 show ?thesis by simp
  qed
next
  case (Resume store jobId c)
  with assms resume_refused [OF assms(2), of store jobId c] show ?thesis
    by (cases "post_export_resume srv store jobId c")
       (auto simp: exec_op_def with_task_def never_below_refl)
next
  case (ExportCsv store)
  from assms ExportCsv have "srv' = srv \<or> world srv' = snd (exportCustomersToCSV e store None (world srv))"
    by (auto simp: exec_op_def post_export_csv_def split: prod.splits sum.splits if_splits)
  then show ?thesis
  proof
    assume "srv' = srv" with assms(2) show ?thesis by (simp add: never_below_refl)
  next
    assume w': "world srv' = snd (exportCustomersToCSV e store None (world srv))"
    show ?thesis unfolding w'
      using never_below_same [OF exportCustomersToCSV_jobs(2,3)]
        cursor_free_same [OF exportCustomersToCSV_jobs(1) assms(2)] by blast
  qed
next
  case (Cli cmd store)
  with assms obtain code w1 where c: "cli k e cmd store (world srv) = Some (code, w1)"
    and w': "world srv' = w1"
    by (auto simp: exec_op_def)
  from cli_keeps [OF c assms(2)] w' show ?thesis by simp
qed

lemma exec_ops_keeps:
  "exec_ops k e ops srv = Some srv' \<Longrightarrow> cursor_free (export_jobs (world srv)) \<Longrightarrow>
   never_below (export_jobs (world srv)) (export_jobs (world srv')) \<and>
   cursor_free (export_jobs (world srv'))"
proof (induction ops arbitrary: srv)
  case Nil
  then show ?case by (simp add: never_below_refl)
next
  case (Cons op ops)
  from Cons.prems(1) obtain r srv1 where
    a: "exec_op k e op srv = Some (r, srv1)" and b: "exec_ops k e ops srv1 = Some srv'"
    by (auto split: option.splits)
  from exec_op_keeps [OF a Cons.prems(2)] have
    c: "never_below (export_jobs (world srv)) (export_jobs (world srv1))"
       "cursor_free (export_jobs (world srv1))" by blast+
  from Cons.IH [OF b c(2)] c(1) show ?case
    by (blast intro: never_below_trans)
qed

lemma cursor_free_fresh: "cursor_free (export_jobs (world fresh_server))"
  by (simp add: cursor_free_def fresh_server_def empty_world_def)

text \<open>So no job has a cursor in a state that is reached from a new database.\<close>

lemma reached_cursor_free:
  assumes "exec_ops fuel e ops fresh_server = Some srv"
  shows "cursor_free (export_jobs (world srv))"
  using exec_ops_keeps [OF assms cursor_free_fresh] by blast

subsection \<open>The runs of the sample stores\<close>

text \<open>
  A first export of \<open>evisu-us\<close> on a new database, the third request failing: two pages
  are saved, and the job is left failed, with 500 processed customers and no cursor.
\<close>

lemma failed_run:
  "exec_op 3 (sample_env 2) (Start ''evisu-us'' False) fresh_server =
     Some (Some (ExportStarted ''pending''), interrupted_server)"
  by (simp add: fetchAndSaveCustomers_def fetch_step_def read_clock_def update_job_def
      updateExportJob_def apply_updates_def no_updates_def truthy_def getExportJob_def
      createExportJob_def or_opt_def or_str_def CUSTOMERS_PER_REQUEST_def Let_def
      fetch_loop_numeral run_task_def with_task_def exec_op_def post_export_def
      in_storeConfigs_def storeConfigs_def getLatestExportJob_def order_by_desc_def
      fresh_server_def empty_world_def sample_env_def upstream_520_def customer_page_Nil
      length_customer_page interrupted_server_def interrupted_world_def interrupted_job_def
      sample_iso_ticks sample_epoch show_sample_epoch)



lemma failed_ops:
  "exec_ops 3 (sample_env 2) [Start ''evisu-us'' False] fresh_server = Some interrupted_server"
  by (simp add: failed_run)


text \<open>A resume of the failed job, asked of the route and of the command line.\<close>

lemma resume_answer:
  "exec_op 3 (sample_env 2) (Resume ''evisu-us'' jobId False) interrupted_server =
     Some (Some (fst (post_export_resume interrupted_server ''evisu-us'' jobId False)),
           interrupted_server)"
proof -
  have "cursor_free (export_jobs (world interrupted_server))"
    by (simp add: cursor_free_def interrupted_server_def interrupted_world_def interrupted_job_def)
  from resume_refused [OF this, of "''evisu-us''" jobId False] show ?thesis
    by (cases "post_export_resume interrupted_server ''evisu-us'' jobId False")
       (simp add: exec_op_def with_task_def)
qed

lemma resume_no_cursor:
  "post_export_resume interrupted_server ''evisu-us'' None False =
     (NoSavedCursor ''export_evisu-us_1763017706000'', interrupted_server, None)"
  "post_export_resume interrupted_server ''evisu-us'' (Some ''export_evisu-us_1763017706000'') False =
     (NoSavedCursor ''export_evisu-us_1763017706000'', interrupted_server, None)"
  by (simp_all add: post_export_resume_def jobToResume_def getExportJobsByStore_def
      order_by_desc_def in_storeConfigs_def storeConfigs_def getExportJob_def
      interrupted_server_def interrupted_world_def interrupted_job_def or_opt_def)

lemma cli_resume_no_cursor:
  "cli 3 (sample_env 2) CliResume ''evisu-us'' interrupted_world = Some (1, interrupted_world)"
  by (simp add: cli_def getExportJobsByStore_def order_by_desc_def in_storeConfigs_def
      storeConfigs_def interrupted_world_def interrupted_job_def or_opt_def)

text \<open>A resume and then a new start on the interrupted server.\<close>

lemma restarted_run:
  "exec_ops 3 (sample_env 2) [Resume ''evisu-us'' None False, Start ''evisu-us'' False]
     interrupted_server = Some restarted_server"
proof -
  have "exec_op 3 (sample_env 2) (Start ''evisu-us'' False) interrupted_server =
          Some (Some (ExportStarted ''export_evisu-us_1763017706000''), restarted_server)"
    by (simp add: fetchAndSaveCustomers_def fetch_step_def read_clock_def update_job_def
        updateExportJob_def apply_updates_def no_updates_def truthy_def getExportJob_def
        createExportJob_def or_opt_def or_str_def CUSTOMERS_PER_REQUEST_def Let_def
        fetch_loop_numeral run_task_def with_task_def exec_op_def post_export_def
        in_storeConfigs_def storeConfigs_def getLatestExportJob_def order_by_desc_def
        sample_env_def upstream_520_def customer_page_Nil length_customer_page
        interrupted_server_def interrupted_world_def interrupted_job_def
        restarted_server_def second_job_def
        sample_iso_later sample_epoch_5 show_sample_epoch_5)
  then show ?thesis by (simp add: resume_answer)
qed

text \<open>The first turn of the loop of a first run.\<close>

lemma started_jobs:
  "export_jobs started_world =
     [\<lparr> job_id = ''export_evisu-us_1763017706000'', storeName = ''evisu-us'', status = in_progress,
        totalCustomers = 0, processedCustomers = 0, startedAt = ''2025-11-13T07:08:26.001Z'',
        completedAt = None, error = None, csvFilePath = None, lastCursor = None \<rparr>]"
  by (simp add: started_world_def createExportJob_def read_clock_def update_job_def
      updateExportJob_def apply_updates_def no_updates_def truthy_def getExportJob_def
      Let_def empty_world_def sample_env_def sample_iso_ticks sample_epoch show_sample_epoch)

lemma started_requests: "requests started_world = []" "ticks started_world = Suc (Suc 0)"
  by (simp_all add: started_world_def createExportJob_def read_clock_def update_job_def
      getExportJob_def Let_def empty_world_def)

lemma first_turn:
  "result_total 0 (fetch_step (sample_env 2) ''evisu-us'' ''export_evisu-us_1763017706000'' None 0
                     started_world) = 250"
  "map processedCustomers
     (export_jobs (result_world (fetch_step (sample_env 2) ''evisu-us''
        ''export_evisu-us_1763017706000'' None 0 started_world))) = [250]"
  by (simp_all add: fetch_step_def result_total_def result_world_def Let_def read_clock_def
      update_job_def updateExportJob_def apply_updates_def no_updates_def started_jobs
      started_requests sample_env_def upstream_520_def CUSTOMERS_PER_REQUEST_def
      customer_page_Nil length_customer_page)

text \<open>
  With the upstream of one page: an export of \<open>evisu-us\<close> with its CSV file, an export of
  \<open>evisu-hk\<close>, and then a CSV export of \<open>evisu-us\<close>.
\<close>

lemma exported_run:
  "exec_op 1 one_page_env (Start ''evisu-us'' True) fresh_server =
     Some (Some (ExportStarted ''pending''), exported_server)"
  by (simp add: fetchAndSaveCustomers_def fetch_step_def read_clock_def update_job_def
      updateExportJob_def apply_updates_def no_updates_def truthy_def getExportJob_def
      createExportJob_def or_opt_def or_str_def CUSTOMERS_PER_REQUEST_def Let_def
      run_task_def with_task_def exec_op_def post_export_def exportCustomersToCSV_def
      in_storeConfigs_def storeConfigs_def getLatestExportJob_def order_by_desc_def
      fresh_server_def empty_world_def one_page_env_def small_page_length us_cache
      sample_csv_path exported_server_def us_export_job_def
      sample_iso_ticks sample_epoch show_sample_epoch)

lemma taken_over_run:
  "exec_op 1 one_page_env (Start ''evisu-hk'' False) exported_server =
     Some (Some (ExportStarted ''pending''), taken_over_server)"
  by (simp add: fetchAndSaveCustomers_def fetch_step_def read_clock_def update_job_def
      updateExportJob_def apply_updates_def no_updates_def truthy_def getExportJob_def
      createExportJob_def or_opt_def or_str_def CUSTOMERS_PER_REQUEST_def Let_def
      run_task_def with_task_def exec_op_def post_export_def
      in_storeConfigs_def storeConfigs_def getLatestExportJob_def order_by_desc_def
      one_page_env_def small_page_length
      exported_server_def us_export_job_def taken_over_server_def hk_export_job_def
      sample_iso_later sample_epoch_5 show_sample_epoch_5)

lemma export_after_take_over:
  "exec_op 1 one_page_env (ExportCsv ''evisu-us'') taken_over_server =
     Some (Some (CsvExportFailed ''No customers found in database for store: evisu-us''),
           taken_over_server)"
  by (simp add: exec_op_def post_export_csv_def exportCustomersToCSV_def
      in_storeConfigs_def storeConfigs_def taken_over_server_def taken_over_cache)

lemma taken_over_ops:
  "exec_ops 1 one_page_env [Start ''evisu-hk'' False] exported_server = Some taken_over_server"
  by (simp only: exec_ops.simps taken_over_run option.case prod.case)

lemma cursor_free_exported: "cursor_free (export_jobs (world exported_server))"
  by (simp add: cursor_free_def exported_server_def us_export_job_def)

subsection \<open>Resuming\<close>

text \<open>
  Claim C1, as the code has it. A job that failed after committing pages cannot be
  resumed. The export of \<open>evisu-us\<close> whose third request fails is the run of a new
  database: it sends its requests with no cursor, with \<open>c250\<close> and with \<open>c500\<close>, saves two
  pages and leaves the job failed with 500 processed customers, and with no cursor, since
  no statement of the service writes \<open>last_cursor\<close>. The resume route, asked with or
  without the id of the job, answers 400 with \<open>No saved cursor found for this job\<close>, starts
  no work and leaves the state as it is; the \<open>resume\<close> command exits with code 1. So it
  is in every state the service reaches from a new database, by whatever sequence of
  operations, for whatever store and job: the route starts no work and changes nothing,
  and the command exits with code 1 and changes nothing.
\<close>

theorem failed_run_is_refused_resume:
  "exec_op 3 (sample_env 2) (Start ''evisu-us'' False) fresh_server =
     Some (Some (ExportStarted ''pending''), interrupted_server) \<and>
   map job_view (export_jobs (world interrupted_server)) = [(failed, 500, None)] \<and>
   requests (world interrupted_server) =
     [(250, None), (250, Some ''c250''), (250, Some ''c500'')] \<and>
   exec_op 3 (sample_env 2) (Resume ''evisu-us'' None False) interrupted_server =
     Some (Some (NoSavedCursor ''export_evisu-us_1763017706000''), interrupted_server) \<and>
   exec_op 3 (sample_env 2)
       (Resume ''evisu-us'' (Some ''export_evisu-us_1763017706000'') False) interrupted_server =
     Some (Some (NoSavedCursor ''export_evisu-us_1763017706000''), interrupted_server) \<and>
   status_code (NoSavedCursor ''export_evisu-us_1763017706000'') = 400 \<and>
   cli 3 (sample_env 2) CliResume ''evisu-us'' (world interrupted_server) =
     Some (1, world interrupted_server) \<and>
   (exec_ops fuel e ops fresh_server = Some srv \<longrightarrow>
      snd (post_export_resume srv store jobId exportCsv) = (srv, None) \<and>
      cli fuel e CliResume store (world srv) = Some (1, world srv))"
proof -
  have a: "map job_view (export_jobs (world interrupted_server)) = [(failed, 500, None)]"
    "requests (world interrupted_server) =
       [(250, None), (250, Some ''c250''), (250, Some ''c500'')]"
    by (simp_all add: job_view_def interrupted_server_def interrupted_world_def interrupted_job_def)
  have b: "exec_op 3 (sample_env 2) (Resume ''evisu-us'' None False) interrupted_server =
             Some (Some (NoSavedCursor ''export_evisu-us_1763017706000''), interrupted_server)"
    "exec_op 3 (sample_env 2)
        (Resume ''evisu-us'' (Some ''export_evisu-us_1763017706000'') False) interrupted_server =
      Some (Some (NoSavedCursor ''export_evisu-us_1763017706000''), interrupted_server)"
    by (simp_all only: resume_answer resume_no_cursor fst_conv)
  have c: "cli 3 (sample_env 2) CliResume ''evisu-us'' (world interrupted_server) =
             Some (1, world interrupted_server)"
    using cli_resume_no_cursor by (simp add: interrupted_server_def)
  have d: "snd (post_export_resume srv store jobId exportCsv) = (srv, None) \<and>
           cli fuel e CliResume store (world srv) = Some (1, world srv)"
    if "exec_ops fuel e ops fresh_server = Some srv"
  proof -
    from that have cf: "cursor_free (export_jobs (world srv))" by (rule reached_cursor_free)
    from resume_refused [OF cf] cli_resume_refused [OF cf] show ?thesis by blast
  qed
  from failed_run a b c d show ?thesis by simp
qed

text \<open>The last part at the state the failed run leaves.\<close>

theorem failed_run_is_refused_resume_witness:
  "exec_ops 3 (sample_env 2) [Start ''evisu-us'' False] fresh_server = Some interrupted_server \<and>
   snd (post_export_resume interrupted_server ''evisu-us'' None True) = (interrupted_server, None) \<and>
   cli 3 (sample_env 2) CliResume ''evisu-us'' (world interrupted_server) =
     Some (1, world interrupted_server)"
  using failed_run_is_refused_resume
          [where fuel = 3 and e = "sample_env 2" and ops = "[Start ''evisu-us'' False]"
             and srv = interrupted_server and store = "''evisu-us''" and jobId = None
             and exportCsv = True]
    failed_ops by blast



text \<open>
  Claim C3. Between two states the service reaches from a new database, the later
  reached from the earlier by whatever sequence of operations, resumes among them, every
  job of the earlier state is in its place in the later one, under its id, with a
  processed count that is not below what it was. So it is from every state in which no
  job has a cursor. Within a run, a turn of the loop that starts with the count of the
  job of the run equal to the running total, as the first turn of a new job does with 0
  and 0, leaves no count of the table below what it was, leaves a running total that is
  not below the one before, and leaves the count of this job equal to it, so that the
  next turn starts in the same way.
\<close>

theorem processed_count_never_decreases:
  "(exec_ops fuel e ops fresh_server = Some srv \<and> exec_ops fuel e opsb srv = Some srv' \<longrightarrow>
      never_below (export_jobs (world srv)) (export_jobs (world srv'))) \<and>
   (cursor_free (export_jobs (world srva)) \<and> exec_ops fuela ea opsa srva = Some srvb \<longrightarrow>
      never_below (export_jobs (world srva)) (export_jobs (world srvb))) \<and>
   ((\<forall>j \<in> set (export_jobs w). job_id j = i \<longrightarrow> processedCustomers j = tot) \<longrightarrow>
      never_below (export_jobs w) (export_jobs (result_world (fetch_step e store i c tot w))) \<and>
      tot \<le> result_total tot (fetch_step e store i c tot w) \<and>
      (\<forall>j \<in> set (export_jobs (result_world (fetch_step e store i c tot w))).
         job_id j = i \<longrightarrow>
         processedCustomers j = result_total tot (fetch_step e store i c tot w)))"
proof -
  have reached: "never_below (export_jobs (world srv)) (export_jobs (world srv'))"
    if "exec_ops fuel e ops fresh_server = Some srv" "exec_ops fuel e opsb srv = Some srv'"
  proof -
    from that(1) have "cursor_free (export_jobs (world srv))" by (rule reached_cursor_free)
    from exec_ops_keeps [OF that(2) this] show ?thesis by blast
  qed
  have kept: "never_below (export_jobs (world srva)) (export_jobs (world srvb))"
    if "cursor_free (export_jobs (world srva))" "exec_ops fuela ea opsa srva = Some srvb"
    using exec_ops_keeps [OF that(2) that(1)] by blast
  have turn: "never_below (export_jobs w) (export_jobs (result_world (fetch_step e store i c tot w))) \<and>
      tot \<le> result_total tot (fetch_step e store i c tot w) \<and>
      (\<forall>j \<in> set (export_jobs (result_world (fetch_step e store i c tot w))).
         job_id j = i \<longrightarrow>
         processedCustomers j = result_total tot (fetch_step e store i c tot w))"
    if h: "\<forall>j \<in> set (export_jobs w). job_id j = i \<longrightarrow> processedCustomers j = tot"
    using fetch_step_count [OF h, of e store c] by blast
  from reached kept turn show ?thesis by blast
qed

text \<open>
  The witness: the export of \<open>evisu-us\<close> that fails on its third request, then a resume,
  which is refused, and a new start, whose run completes: the failed job stays at 500
  and the new job is at 520. The export of \<open>evisu-hk\<close> after the one of \<open>evisu-us\<close>, with the
  upstream of one page. And the first turn of the loop of the first run, which takes the
  count of its job from 0 to 250.
\<close>

theorem processed_count_never_decreases_witness:
  "exec_ops 3 (sample_env 2) [Start ''evisu-us'' False] fresh_server = Some interrupted_server \<and>
   exec_ops 3 (sample_env 2) [Resume ''evisu-us'' None False, Start ''evisu-us'' False]
     interrupted_server = Some restarted_server \<and>
   never_below (export_jobs (world interrupted_server)) (export_jobs (world restarted_server)) \<and>
   map processedCustomers (export_jobs (world interrupted_server)) = [500] \<and>
   map processedCustomers (export_jobs (world restarted_server)) = [500, 520] \<and>
   cursor_free (export_jobs (world exported_server)) \<and>
   exec_ops 1 one_page_env [Start ''evisu-hk'' False] exported_server = Some taken_over_server \<and>
   never_below (export_jobs (world exported_server)) (export_jobs (world taken_over_server)) \<and>
   map processedCustomers (export_jobs started_world) = [0] \<and>
   never_below (export_jobs started_world)
     (export_jobs (result_world (fetch_step (sample_env 2) ''evisu-us''
        ''export_evisu-us_1763017706000'' None 0 started_world))) \<and>
   result_total 0 (fetch_step (sample_env 2) ''evisu-us'' ''export_evisu-us_1763017706000'' None 0
                     started_world) = 250 \<and>
   map processedCustomers
     (export_jobs (result_world (fetch_step (sample_env 2) ''evisu-us''
        ''export_evisu-us_1763017706000'' None 0 started_world))) = [250]"
proof -
  have inv: "\<forall>j \<in> set (export_jobs started_world).
               job_id j = ''export_evisu-us_1763017706000'' \<longrightarrow> processedCustomers j = 0"
    by (simp add: started_jobs)
  from processed_count_never_decreases
         [where fuel = 3 and e = "sample_env 2" and ops = "[Start ''evisu-us'' False]"
            and srv = interrupted_server
            and opsb = "[Resume ''evisu-us'' None False, Start ''evisu-us'' False]"
            and srv' = restarted_server
            and srva = exported_server and fuela = 1 and ea = one_page_env
            and opsa = "[Start ''evisu-hk'' False]" and srvb = taken_over_server
            and w = started_world and i = "''export_evisu-us_1763017706000''" and tot = 0
            and store = "''evisu-us''" and c = None]
       failed_ops restarted_run cursor_free_exported taken_over_ops inv
  have "never_below (export_jobs (world interrupted_server)) (export_jobs (world restarted_server)) \<and>
        never_below (export_jobs (world exported_server)) (export_jobs (world taken_over_server)) \<and>
        never_below (export_jobs started_world)
          (export_jobs (result_world (fetch_step (sample_env 2) ''evisu-us''
             ''export_evisu-us_1763017706000'' None 0 started_world)))"
    by blast
  moreover have "map processedCustomers (export_jobs (world interrupted_server)) = [500]"
    "map processedCustomers (export_jobs (world restarted_server)) = [500, 520]"
    "map processedCustomers (export_jobs started_world) = [0]"
    by (simp_all add: interrupted_server_def interrupted_world_def interrupted_job_def
        restarted_server_def second_job_def started_jobs)
  ultimately show ?thesis
    using failed_ops restarted_run cursor_free_exported taken_over_ops first_turn by blast
qed

section \<open>The routes\<close>

text \<open>
  Claim C5, as the code has it. A start request is refused as a conflict exactly when the
  store is configured and marked in \<^verbatim>\<open>activeExports\<close>, the map in the memory of the process;
  the refusal changes nothing and starts nothing. A start that is accepted marks the
  store, so that a second start is refused while the first runs. The jobs of the table
  are not looked at.
\<close>

theorem start_rejected_iff_store_active:
  "(fst (post_export srv store c) = ExportAlreadyInProgress \<longleftrightarrow>
      in_storeConfigs store \<and> activeExports srv store = Some True) \<and>
   (fst (post_export srv store c) = ExportAlreadyInProgress \<longrightarrow>
      post_export srv store c = (ExportAlreadyInProgress, srv, None)) \<and>
   (\<forall>i srv' t. post_export srv store c = (ExportStarted i, srv', t) \<longrightarrow>
      post_export srv' store c' = (ExportAlreadyInProgress, srv', None))"
  by (auto simp: post_export_def split: if_splits)

theorem start_rejected_iff_store_active_witness:
  "in_storeConfigs ''evisu-us'' \<and> activeExports busy_server ''evisu-us'' = Some True \<and>
   post_export busy_server ''evisu-us'' False = (ExportAlreadyInProgress, busy_server, None) \<and>
   post_export interrupted_server ''evisu-us'' False =
     (ExportStarted ''export_evisu-us_1763017706000'', busy_server,
      Some (RunExport ''evisu-us'' False)) \<and>
   post_export busy_server ''evisu-us'' True = (ExportAlreadyInProgress, busy_server, None)"
proof -
  have a: "in_storeConfigs ''evisu-us'' \<and> activeExports busy_server ''evisu-us'' = Some True"
    by (simp add: in_storeConfigs_def storeConfigs_def busy_server_def interrupted_server_def)
  with start_rejected_iff_store_active [of busy_server "''evisu-us''" False]
  have b: "post_export busy_server ''evisu-us'' False = (ExportAlreadyInProgress, busy_server, None)"
    by blast
  have c: "post_export interrupted_server ''evisu-us'' False =
     (ExportStarted ''export_evisu-us_1763017706000'', busy_server,
      Some (RunExport ''evisu-us'' False))"
    by (simp add: post_export_def getLatestExportJob_def order_by_desc_def in_storeConfigs_def storeConfigs_def
        interrupted_server_def interrupted_world_def interrupted_job_def busy_server_def
        or_str_def or_opt_def)
  with start_rejected_iff_store_active [of interrupted_server "''evisu-us''" False True]
  have d: "post_export busy_server ''evisu-us'' True = (ExportAlreadyInProgress, busy_server, None)"
    by blast
  from a b c d show ?thesis by blast
qed

text \<open>
  Claim C5, as stated, fails: the store below has a failed job and no export running, and
  a start request for it is accepted.
\<close>

theorem start_with_failed_job_counterexample:
  "map status (export_jobs (world interrupted_server)) = [failed] \<and>
   map storeName (export_jobs (world interrupted_server)) = [''evisu-us''] \<and>
   fst (post_export interrupted_server ''evisu-us'' False) =
     ExportStarted ''export_evisu-us_1763017706000'' \<and>
   status_code (fst (post_export interrupted_server ''evisu-us'' False)) = 200"
  by (simp add: post_export_def getLatestExportJob_def order_by_desc_def in_storeConfigs_def storeConfigs_def
      interrupted_server_def interrupted_world_def interrupted_job_def or_str_def or_opt_def)

text \<open>
  Claim C6, as the code has it. On a configured store with no export running, a resume
  request about a job that is completed or has no cursor is answered with status 400,
  naming the job, and changes nothing and starts nothing. Whatever the request, an answer
  other than 200 leaves the server as it was, so that asking again gives the same answer.
\<close>

theorem resume_rejected_leaves_state:
  "(in_storeConfigs store \<and> activeExports srv store \<noteq> Some True \<and>
    jobToResume (export_jobs (world srv)) store jobId = Some j \<and>
    (status j = completed \<or> lastCursor j = None) \<longrightarrow>
      post_export_resume srv store jobId c =
        (if status j \<noteq> failed \<and> status j \<noteq> in_progress
         then CanOnlyResumeFailedOrInProgress (status j) (job_id j)
         else NoSavedCursor (job_id j), srv, None) \<and>
      status_code (fst (post_export_resume srv store jobId c)) = 400) \<and>
   (status_code (fst (post_export_resume srv store jobId c)) \<noteq> 200 \<longrightarrow>
      snd (post_export_resume srv store jobId c) = (srv, None))"
  by (auto simp: post_export_resume_def or_opt_def split: option.splits)

theorem resume_rejected_leaves_state_witness:
  "in_storeConfigs ''evisu-us'' \<and> activeExports completed_server ''evisu-us'' \<noteq> Some True \<and>
   jobToResume (export_jobs (world completed_server)) ''evisu-us''
     (Some ''export_evisu-us_1763017706000'') = Some completed_job \<and>
   status completed_job = completed \<and>
   post_export_resume completed_server ''evisu-us'' (Some ''export_evisu-us_1763017706000'') False =
     (CanOnlyResumeFailedOrInProgress completed ''export_evisu-us_1763017706000'',
      completed_server, None) \<and>
   status_code (fst (post_export_resume completed_server ''evisu-us''
     (Some ''export_evisu-us_1763017706000'') False)) \<noteq> 200 \<and>
   snd (post_export_resume completed_server ''evisu-us''
     (Some ''export_evisu-us_1763017706000'') False) = (completed_server, None)"
proof -
  have a: "in_storeConfigs ''evisu-us''" "activeExports completed_server ''evisu-us'' \<noteq> Some True"
    by (simp_all add: in_storeConfigs_def storeConfigs_def completed_server_def)
  have b: "jobToResume (export_jobs (world completed_server)) ''evisu-us''
     (Some ''export_evisu-us_1763017706000'') = Some completed_job"
    by (simp add: jobToResume_def getExportJob_def completed_server_def completed_job_def
        or_str_def or_opt_def)
  have c: "status completed_job = completed" "job_id completed_job = ''export_evisu-us_1763017706000''"
    by (simp_all add: completed_job_def)
  from resume_rejected_leaves_state
         [of "''evisu-us''" completed_server "Some ''export_evisu-us_1763017706000''"
             completed_job False] a b c
  have d: "post_export_resume completed_server ''evisu-us'' (Some ''export_evisu-us_1763017706000'') False =
     (CanOnlyResumeFailedOrInProgress completed ''export_evisu-us_1763017706000'',
      completed_server, None)"
    by simp
  then have e: "status_code (fst (post_export_resume completed_server ''evisu-us''
     (Some ''export_evisu-us_1763017706000'') False)) \<noteq> 200"
    by simp
  from d have f: "snd (post_export_resume completed_server ''evisu-us''
     (Some ''export_evisu-us_1763017706000'') False) = (completed_server, None)"
    by simp
  from a b c(1) d e f show ?thesis by blast
qed

text \<open>
  Claim C6, as stated, fails: while an export of the store is running, a resume request
  about a completed job is refused as a conflict, with status 409, before the job is
  looked at.
\<close>

theorem resume_completed_while_active_counterexample:
  "jobToResume (export_jobs (world busy_completed_server)) ''evisu-us''
     (Some ''export_evisu-us_1763017706000'') = Some completed_job \<and>
   status completed_job = completed \<and>
   post_export_resume busy_completed_server ''evisu-us''
     (Some ''export_evisu-us_1763017706000'') False =
     (ExportAlreadyInProgress, busy_completed_server, None) \<and>
   status_code ExportAlreadyInProgress = 409"
  by (simp add: post_export_resume_def jobToResume_def getExportJob_def in_storeConfigs_def storeConfigs_def
      busy_completed_server_def completed_server_def completed_job_def or_str_def or_opt_def)

section \<open>The CSV file\<close>

text \<open>The call returns, with the file written, whenever the store has a cached customer.\<close>

lemma exportCustomersToCSV_writes:
  assumes "getCustomersByStore (customers w) store \<noteq> []"
  shows "fst (exportCustomersToCSV e store j w) =
           Inr (csv_output_file (exports_dir e) store (clock e (ticks w)))"
    and "files (snd (exportCustomersToCSV e store j w))
           (csv_output_file (exports_dir e) store (clock e (ticks w))) =
         Some (csv_text (getCustomersByStore (customers w) store))"
  using assms
  by (simp_all add: exportCustomersToCSV_def Let_def read_clock_def update_job_def)

lemma exportCustomersToCSV_state:
  assumes "getCustomersByStore (customers w) store \<noteq> []"
  shows "customers (snd (exportCustomersToCSV e store j w)) = customers w"
    and "ticks (snd (exportCustomersToCSV e store j w)) = ticks w + 1"
  using assms
  by (simp_all add: exportCustomersToCSV_def Let_def read_clock_def update_job_def)

text \<open>A call that finds no customer of the store throws, and changes nothing.\<close>

lemma exportCustomersToCSV_refuses:
  "getCustomersByStore (customers w) store = [] \<Longrightarrow>
   exportCustomersToCSV e store j w =
     (Inl (''No customers found in database for store: '' @ store), w)"
  by (simp add: exportCustomersToCSV_def)

text \<open>
  Claim C10, as the code has it. Two calls of \<^verbatim>\<open>exportCustomersToCSV\<close> for one store, each
  finding a customer of the store in the cache, both return, and when they read the clock
  on the same UTC date they return the same path: the exports directory, then
  \<open>customers-\<close>, the store, the date as \<open>YYYY-MM-DD\<close> and \<open>.csv\<close>. After the second call the
  file at this path holds what the second call wrote, the CSV text of the cache as the
  second call found it, whatever the first call had left there. A call that finds no
  customer of the store in the cache throws before it opens any file: it returns the
  error and leaves the state, and so the file of an earlier call, as it is.
\<close>

theorem same_store_same_day_same_file:
  "(getCustomersByStore (customers w1) store \<noteq> [] \<and>
    getCustomersByStore (customers w2) store \<noteq> [] \<and>
    year (clock e (ticks w1)) = year (clock e (ticks w2)) \<and>
    month (clock e (ticks w1)) = month (clock e (ticks w2)) \<and>
    day (clock e (ticks w1)) = day (clock e (ticks w2)) \<longrightarrow>
      fst (exportCustomersToCSV e store j1 w1) =
        Inr (exports_dir e @ ''/customers-'' @ store @ ''-'' @
             pad 4 (year (clock e (ticks w1))) @ ''-'' @
             pad 2 (month (clock e (ticks w1))) @ ''-'' @
             pad 2 (day (clock e (ticks w1))) @ ''.csv'') \<and>
      fst (exportCustomersToCSV e store j2 w2) = fst (exportCustomersToCSV e store j1 w1) \<and>
      files (snd (exportCustomersToCSV e store j2 w2))
        (exports_dir e @ ''/customers-'' @ store @ ''-'' @
         pad 4 (year (clock e (ticks w1))) @ ''-'' @
         pad 2 (month (clock e (ticks w1))) @ ''-'' @
         pad 2 (day (clock e (ticks w1))) @ ''.csv'') =
      Some (csv_text (getCustomersByStore (customers w2) store))) \<and>
   (getCustomersByStore (customers w) store = [] \<longrightarrow>
      exportCustomersToCSV e store j w =
        (Inl (''No customers found in database for store: '' @ store), w))"
proof -
  have written:
    "fst (exportCustomersToCSV e store j1 w1) =
        Inr (exports_dir e @ ''/customers-'' @ store @ ''-'' @
             pad 4 (year (clock e (ticks w1))) @ ''-'' @
             pad 2 (month (clock e (ticks w1))) @ ''-'' @
             pad 2 (day (clock e (ticks w1))) @ ''.csv'') \<and>
      fst (exportCustomersToCSV e store j2 w2) = fst (exportCustomersToCSV e store j1 w1) \<and>
      files (snd (exportCustomersToCSV e store j2 w2))
        (exports_dir e @ ''/customers-'' @ store @ ''-'' @
         pad 4 (year (clock e (ticks w1))) @ ''-'' @
         pad 2 (month (clock e (ticks w1))) @ ''-'' @
         pad 2 (day (clock e (ticks w1))) @ ''.csv'') =
      Some (csv_text (getCustomersByStore (customers w2) store))"
    if ne1: "getCustomersByStore (customers w1) store \<noteq> []"
      and ne2: "getCustomersByStore (customers w2) store \<noteq> []"
      and y: "year (clock e (ticks w1)) = year (clock e (ticks w2))"
      and m: "month (clock e (ticks w1)) = month (clock e (ticks w2))"
      and d: "day (clock e (ticks w1)) = day (clock e (ticks w2))"
  proof -
    let ?p = "\<lambda>w. csv_output_file (exports_dir e) store (clock e (ticks w))"
    have ts: "csv_timestamp (clock e (ticks w2)) = csv_timestamp (clock e (ticks w1))"
      by (simp only: csv_timestamp_date y m d)
    have eq: "?p w2 = ?p w1"
      by (simp only: csv_output_file_def ts)
    have shape: "?p w1 = exports_dir e @ ''/customers-'' @ store @ ''-'' @
                pad 4 (year (clock e (ticks w1))) @ ''-'' @
                pad 2 (month (clock e (ticks w1))) @ ''-'' @
                pad 2 (day (clock e (ticks w1))) @ ''.csv''"
      by (simp add: csv_output_file_def csv_timestamp_date)
    have a: "fst (exportCustomersToCSV e store j1 w1) = Inr (?p w1)"
      by (rule exportCustomersToCSV_writes(1) [OF ne1])
    have b: "fst (exportCustomersToCSV e store j2 w2) = Inr (?p w1)"
      using exportCustomersToCSV_writes(1) [OF ne2, of e j2] by (simp only: eq)
    have c: "files (snd (exportCustomersToCSV e store j2 w2)) (?p w1) =
             Some (csv_text (getCustomersByStore (customers w2) store))"
      using exportCustomersToCSV_writes(2) [OF ne2, of e j2] by (simp only: eq)
    from a b c show ?thesis by (simp only: shape)
  qed
  from written exportCustomersToCSV_refuses [of w store e j] show ?thesis by blast
qed

lemma one_page_date:
  "year (clock one_page_env n) = 2025" "month (clock one_page_env n) = 11"
  "day (clock one_page_env n) = 13" "exports_dir one_page_env = ''/app/exports''"
  by (simp_all add: one_page_env_def sample_clock_def)

lemma sample_date_text: "pad 4 2025 = ''2025''" "pad 2 11 = ''11''" "pad 2 13 = ''13''"
  by (simp_all add: pad_2 pad_4 digit_char_def)

text \<open>
  The witness: on the state the export of \<open>evisu-us\<close> with its CSV file leaves, a call and
  then a second call on the state the first one leaves, the same day; and a call on the
  state in which \<open>evisu-hk\<close> has taken the customers over.
\<close>

theorem same_store_same_day_same_file_witness:
  "getCustomersByStore (customers (world exported_server)) ''evisu-us'' \<noteq> [] \<and>
   getCustomersByStore
     (customers (snd (exportCustomersToCSV one_page_env ''evisu-us'' None (world exported_server))))
     ''evisu-us'' \<noteq> [] \<and>
   fst (exportCustomersToCSV one_page_env ''evisu-us'' None (world exported_server)) =
     Inr ''/app/exports/customers-evisu-us-2025-11-13.csv'' \<and>
   fst (exportCustomersToCSV one_page_env ''evisu-us'' None
         (snd (exportCustomersToCSV one_page_env ''evisu-us'' None (world exported_server)))) =
     Inr ''/app/exports/customers-evisu-us-2025-11-13.csv'' \<and>
   files (snd (exportCustomersToCSV one_page_env ''evisu-us'' None
               (snd (exportCustomersToCSV one_page_env ''evisu-us'' None (world exported_server)))))
     ''/app/exports/customers-evisu-us-2025-11-13.csv'' = Some (csv_text small_page) \<and>
   getCustomersByStore (customers (world taken_over_server)) ''evisu-us'' = [] \<and>
   exportCustomersToCSV one_page_env ''evisu-us'' None (world taken_over_server) =
     (Inl ''No customers found in database for store: evisu-us'', world taken_over_server)"
proof -
  define w1 where "w1 = world exported_server"
  define w2 where "w2 = snd (exportCustomersToCSV one_page_env ''evisu-us'' None w1)"
  define w3 where "w3 = world taken_over_server"
  have c1: "getCustomersByStore (customers w1) ''evisu-us'' = small_page"
    by (simp add: w1_def exported_server_def us_cache)
  then have ne1: "getCustomersByStore (customers w1) ''evisu-us'' \<noteq> []"
    by (simp add: small_page_length)
  have c2: "getCustomersByStore (customers w2) ''evisu-us'' = small_page"
    unfolding w2_def by (simp only: exportCustomersToCSV_state(1) [OF ne1] c1)
  then have ne2: "getCustomersByStore (customers w2) ''evisu-us'' \<noteq> []"
    by (simp add: small_page_length)
  have c3: "getCustomersByStore (customers w3) ''evisu-us'' = []"
    by (simp add: w3_def taken_over_server_def taken_over_cache)
  have d: "year (clock one_page_env (ticks w1)) = year (clock one_page_env (ticks w2))"
    "month (clock one_page_env (ticks w1)) = month (clock one_page_env (ticks w2))"
    "day (clock one_page_env (ticks w1)) = day (clock one_page_env (ticks w2))"
    by (simp_all only: one_page_date)
  from same_store_same_day_same_file [of w1 "''evisu-us''" w2 one_page_env None None w3 None]
       ne1 ne2 d c3
  have "fst (exportCustomersToCSV one_page_env ''evisu-us'' None w1) =
          Inr ''/app/exports/customers-evisu-us-2025-11-13.csv'' \<and>
        fst (exportCustomersToCSV one_page_env ''evisu-us'' None w2) =
          fst (exportCustomersToCSV one_page_env ''evisu-us'' None w1) \<and>
        files (snd (exportCustomersToCSV one_page_env ''evisu-us'' None w2))
          ''/app/exports/customers-evisu-us-2025-11-13.csv'' = Some (csv_text small_page) \<and>
        exportCustomersToCSV one_page_env ''evisu-us'' None w3 =
          (Inl ''No customers found in database for store: evisu-us'', w3)"
    by (simp add: one_page_date sample_date_text c2)
  with ne1 ne2 c3 show ?thesis unfolding w2_def w1_def w3_def by simp
qed

text \<open>
  Claim C10, as stated, fails: an export of \<open>evisu-us\<close> writes its CSV file; an export of
  \<open>evisu-hk\<close>, whose customers come under the same ids, then leaves \<open>evisu-us\<close> no cached
  customer; a CSV export of \<open>evisu-us\<close> later that day is answered 500, writes nothing, and
  the file still holds what the first call wrote.
\<close>

theorem second_export_keeps_first_artifact_counterexample:
  "exec_op 1 one_page_env (Start ''evisu-us'' True) fresh_server =
     Some (Some (ExportStarted ''pending''), exported_server) \<and>
   files (world exported_server) ''/app/exports/customers-evisu-us-2025-11-13.csv'' =
     Some (csv_text small_page) \<and>
   exec_op 1 one_page_env (Start ''evisu-hk'' False) exported_server =
     Some (Some (ExportStarted ''pending''), taken_over_server) \<and>
   exec_op 1 one_page_env (ExportCsv ''evisu-us'') taken_over_server =
     Some (Some (CsvExportFailed ''No customers found in database for store: evisu-us''),
           taken_over_server) \<and>
   status_code (CsvExportFailed ''No customers found in database for store: evisu-us'') = 500 \<and>
   files (world taken_over_server) ''/app/exports/customers-evisu-us-2025-11-13.csv'' =
     Some (csv_text small_page)"
proof -
  have f: "files (world exported_server) ''/app/exports/customers-evisu-us-2025-11-13.csv'' =
             Some (csv_text small_page)"
    "files (world taken_over_server) ''/app/exports/customers-evisu-us-2025-11-13.csv'' =
             Some (csv_text small_page)"
    by (simp_all add: exported_server_def taken_over_server_def)
  from exported_run taken_over_run export_after_take_over f show ?thesis by simp
qed

end
